theory Spec2Isabelle
  imports Main
begin

section \<open>Data model of gostage\<close>

text \<open>
  Channels are Go heap objects created by \<^verbatim>\<open>make(chan ...)\<close>.  A channel is
  modelled by its allocation number: the \<open>k\<close>-th \<^verbatim>\<open>make\<close> of a run yields
  channel \<open>k\<close>, so two channel values are the same object iff the numbers agree.
  A \<^verbatim>\<open>nil\<close> channel is \<open>None\<close>.
\<close>

type_synonym chan = nat

text \<open>The package-level error values, and any other error a transform may return.\<close>

datatype error = ErrNoData | ErrQuit | ErrSupervision | ErrOther string

text \<open>Payloads of type \<^verbatim>\<open>interface{}\<close>: the nil value or some datum.\<close>

datatype val = NilV | Data int

text \<open>The one implementation of the \<^verbatim>\<open>Logger\<close> interface in the repository; a nil
  interface value is \<open>None\<close>.\<close>

datatype logger = StdLogger

text \<open>
  A \<^verbatim>\<open>Worker\<close> value, that is, a non-nil interface value (the code calls
  \<^verbatim>\<open>HandleEvent\<close> on the \<^verbatim>\<open>Worker\<close> of every linked descriptor).  \<open>ident\<close> is the identity of
  the object behind the interface (the pointer held in its \<^verbatim>\<open>reflect.Value\<close>),
  \<open>type_name\<close> its dynamic type.  \<open>string_content\<close> is what reflection sees of the value
  itself: \<open>Some t\<close> when the dynamic type is of kind string (as in
  \<^verbatim>\<open>type W string\<close>) and the value is the string \<open>t\<close>, \<open>None\<close> for every other kind
  (pointer, struct, func, ...).  The optional methods that the code looks up by
  reflection are recorded as capabilities: \<open>create\<close> says whether a method \<^verbatim>\<open>Create\<close>
  exists and, if so, whether what it returns implements \<^verbatim>\<open>Worker\<close>; \<open>has_Close\<close> whether
  a method \<^verbatim>\<open>Close\<close> exists.  \<^verbatim>\<open>Create\<close> is taken to have the documented signature (no
  parameter, one result).  \<open>CreateWorker w\<close> gives the worker a call returns, described
  as far as a run can observe it: the code never calls \<^verbatim>\<open>Create\<close> on a worker that
  \<^verbatim>\<open>Create\<close> returned.
\<close>

datatype worker =
  Obj (ident: nat) (type_name: string) (string_content: "string option")
      (create: create_cap) (has_Close: bool)
and create_cap = NoCreate | CreateNonWorker | CreateWorker worker

record config =
  Name :: string
  Size :: int
  Worker :: worker
  SubscribeTo :: "worker option"
  Restart :: int

record linkedWorker = config +
  in_chan :: "chan option"
  out_chan :: "chan option"

text \<open>The mutable package variables \<^verbatim>\<open>DefaultRestart\<close>, \<^verbatim>\<open>DefaultSize\<close>,
  \<^verbatim>\<open>NoDataCount\<close> and \<^verbatim>\<open>NoDataCountSleep\<close> (a duration in nanoseconds).\<close>

record globals =
  DefaultRestart :: int
  DefaultSize :: int
  NoDataCount :: int
  NoDataCountSleep :: int

definition package_defaults :: globals where
  "package_defaults =
     \<lparr>DefaultRestart = 1, DefaultSize = 1, NoDataCount = 100, NoDataCountSleep = 1000000000\<rparr>"

text \<open>
  \<^verbatim>\<open>type supervisor struct\<close> of supervisor.go.  The fields \<^verbatim>\<open>errChan\<close> and \<^verbatim>\<open>logger\<close>
  carry the prefix \<open>sup_\<close> here, because \<^verbatim>\<open>GoStage\<close> has fields of the same names.
  \<open>'f\<close> is the representation of the supervised \<^verbatim>\<open>func()\<close>.
\<close>

record 'f supervisor =
  maxRestart :: int
  restartCount :: int
  restartChan :: chan
  sup_errChan :: chan
  workerFunc :: 'f
  sup_logger :: "logger option"

text \<open>The closure \<^verbatim>\<open>func() { s.runWorker(w, stop, i, n) }\<close> that \<^verbatim>\<open>startWorkers\<close> hands to
  \<^verbatim>\<open>Supervise\<close>: its captured variables.\<close>

record closure =
  cl_w :: worker
  cl_stop :: chan
  cl_i :: nat
  cl_n :: nat

text \<open>
  \<^verbatim>\<open>type GoStage struct\<close>.  Two fields are added by the model: \<open>nextChan\<close>, the number
  of channels allocated so far (the next \<^verbatim>\<open>make\<close> returns this number), and
  \<open>supervised\<close>, the supervisors that \<^verbatim>\<open>Supervise\<close> has started, in start order (in Go
  they live on as goroutines).  The context \<^verbatim>\<open>ctx\<close> is an event source of the
  environment and has no field.
\<close>

record gostage =
  logger :: "logger option"
  configs :: "config list"
  linkedWorkers :: "linkedWorker list"
  errChan :: chan
  quitChan :: chan
  stopChan :: "chan list"
  noDataCount :: int
  noDataCountSleep :: int
  nextChan :: nat
  supervised :: "closure supervisor list"

definition WithNoDataCount :: "int \<Rightarrow> gostage \<Rightarrow> gostage" where
  "WithNoDataCount n gs = gs\<lparr>noDataCount := n\<rparr>"

definition WithNoDataCountSleep :: "int \<Rightarrow> gostage \<Rightarrow> gostage" where
  "WithNoDataCountSleep n gs = gs\<lparr>noDataCountSleep := n\<rparr>"

text \<open>\<^verbatim>\<open>New\<close>: two channels are made (\<^verbatim>\<open>errChan\<close> is channel 0, \<^verbatim>\<open>quitChan\<close> channel 1),
  the defaults are read from the package variables, then the options are applied in
  order.\<close>

definition New :: "globals \<Rightarrow> config list \<Rightarrow> logger option \<Rightarrow> (gostage \<Rightarrow> gostage) list \<Rightarrow> gostage" where
  "New g cfgs lg opts =
     fold (\<lambda>opt gs. opt gs) opts
       \<lparr>logger = lg, configs = cfgs, linkedWorkers = [], errChan = 0, quitChan = 1,
        stopChan = [], noDataCount = NoDataCount g, noDataCountSleep = NoDataCountSleep g,
        nextChan = 2, supervised = []\<rparr>"

section \<open>Pipeline builder\<close>

text \<open>\<^verbatim>\<open>findRoot\<close>: the first descriptor, in list order, whose \<^verbatim>\<open>SubscribeTo\<close> is nil;
  nil when there is none.\<close>

primrec findRoot :: "config list \<Rightarrow> config option" where
  "findRoot [] = None"
| "findRoot (c # cs) = (if SubscribeTo c = None then Some c else findRoot cs)"

text \<open>
  \<^verbatim>\<open>reflect.DeepEqual\<close> applied to the \<^verbatim>\<open>reflect.Value\<close>s of two interface values: the
  two hold the same dynamic type and the same pointer.  The \<^verbatim>\<open>reflect.Value\<close> of a nil
  interface is the zero \<^verbatim>\<open>Value\<close>, which equals only itself.
\<close>

definition DeepEqual :: "worker option \<Rightarrow> worker option \<Rightarrow> bool" where
  "DeepEqual a b =
     (case (a, b) of
        (None, None) \<Rightarrow> True
      | (Some u, Some w) \<Rightarrow> ident u = ident w \<and> type_name u = type_name w
      | _ \<Rightarrow> False)"

text \<open>\<^verbatim>\<open>findNext\<close>: the first descriptor, in list order, whose \<^verbatim>\<open>SubscribeTo\<close> is the very
  object that is the given descriptor's \<^verbatim>\<open>Worker\<close>.\<close>

primrec findNext :: "config list \<Rightarrow> config \<Rightarrow> config option" where
  "findNext [] cur = None"
| "findNext (c # cs) cur =
     (if DeepEqual (SubscribeTo c) (Some (Worker cur)) then Some c else findNext cs cur)"

text \<open>
  \<^verbatim>\<open>setWorkerName\<close>: an empty name becomes
  \<^verbatim>\<open>reflect.ValueOf(c).Elem().FieldByName("Worker").Elem().String()\<close>, the \<^verbatim>\<open>String()\<close> of
  the \<^verbatim>\<open>reflect.Value\<close> of the worker inside the interface.  For a value of kind string
  that is the string itself; for a value of any other kind it is the name of its type
  between \<^verbatim>\<open><\<close> and \<^verbatim>\<open> Value>\<close>.
\<close>

definition setWorkerName :: "config \<Rightarrow> config" where
  "setWorkerName c =
     (if Name c = [] then
        c\<lparr>Name := (case string_content (Worker c) of
                      Some t \<Rightarrow> t
                    | None \<Rightarrow> ''<'' @ type_name (Worker c) @ '' Value>'')\<rparr>
      else c)"

text \<open>\<^verbatim>\<open>&linkedWorker{Config: config}\<close>: both channels nil.\<close>

definition link :: "config \<Rightarrow> linkedWorker" where
  "link c = config.extend c \<lparr>in_chan = None, out_chan = None\<rparr>"

text \<open>
  The loop of \<^verbatim>\<open>buildLinkedWorkers\<close>:
  \<^verbatim>\<open>for config := s.findRoot(); config != nil; config = s.findNext(config)\<close>.
  Nothing bounds it (a descriptor that subscribes to the worker it wraps is its own
  successor), so it is a partial function: \<open>None\<close> is the loop that never ends.
  In Go a linked stage points to its descriptor, so the descriptor in \<^verbatim>\<open>s.configs\<close> gets
  the name too; \<^verbatim>\<open>findNext\<close> reads only \<^verbatim>\<open>Worker\<close> and \<^verbatim>\<open>SubscribeTo\<close>, which
  \<^verbatim>\<open>setWorkerName\<close> leaves alone, and nothing else reads \<^verbatim>\<open>s.configs\<close> afterwards, so
  the model keeps \<open>configs\<close> as it was.
\<close>

partial_function (option) linkLoop ::
  "config list \<Rightarrow> config option \<Rightarrow> linkedWorker list \<Rightarrow> linkedWorker list option" where
  "linkLoop cfgs cur acc =
     (case cur of
        None \<Rightarrow> Some acc
      | Some c \<Rightarrow> linkLoop cfgs (findNext cfgs c) (acc @ [link (setWorkerName c)]))"

declare linkLoop.simps [code]

definition buildLinkedWorkers :: "gostage \<Rightarrow> gostage option" where
  "buildLinkedWorkers s =
     map_option (\<lambda>lws. s\<lparr>linkedWorkers := lws\<rparr>)
       (linkLoop (configs s) (findRoot (configs s)) (linkedWorkers s))"

section \<open>Channel wiring\<close>

text \<open>
  \<^verbatim>\<open>setupChannels\<close>: the loop over the positions \<open>i\<close> of the chain.  Position 0 gets a
  fresh outbound channel (whatever the length of the chain); a last position other
  than 0 takes the outbound channel of its predecessor as inbound channel; every
  other position does both.
\<close>

function setupChannels_loop :: "nat \<Rightarrow> gostage \<Rightarrow> gostage" where
  "setupChannels_loop i s =
     (if i < length (linkedWorkers s) then
        (if i = 0 then
           (let out = nextChan s in
            setupChannels_loop (i + 1)
              (s\<lparr>nextChan := out + 1,
                 linkedWorkers := (linkedWorkers s)[i := (linkedWorkers s ! i)\<lparr>out_chan := Some out\<rparr>]\<rparr>))
         else if i = length (linkedWorkers s) - 1 then
           setupChannels_loop (i + 1)
             (s\<lparr>linkedWorkers := (linkedWorkers s)
                   [i := (linkedWorkers s ! i)\<lparr>in_chan := out_chan (linkedWorkers s ! (i - 1))\<rparr>]\<rparr>)
         else
           (let out = nextChan s in
            setupChannels_loop (i + 1)
              (s\<lparr>nextChan := out + 1,
                 linkedWorkers := (linkedWorkers s)
                   [i := (linkedWorkers s ! i)\<lparr>in_chan := out_chan (linkedWorkers s ! (i - 1)),
                                               out_chan := Some out\<rparr>]\<rparr>)))
      else s)"
  by pat_completeness auto
termination
  by (relation "measure (\<lambda>(i, s). length (linkedWorkers s) - i)") auto

declare setupChannels_loop.simps [simp del]

definition setupChannels :: "gostage \<Rightarrow> gostage" where
  "setupChannels s = setupChannels_loop 0 s"

section \<open>Supervisor: construction\<close>

text \<open>
  \<^verbatim>\<open>Supervise\<close> builds the supervisor from a struct literal that names four fields:
  \<^verbatim>\<open>maxRestart\<close>, \<^verbatim>\<open>restartChan\<close>, \<^verbatim>\<open>errChan\<close> and \<^verbatim>\<open>workerFunc\<close>.  The fields
  \<^verbatim>\<open>restartCount\<close> and \<^verbatim>\<open>logger\<close> are not named and keep Go's zero values, 0 and nil:
  the parameter \<^verbatim>\<open>logger\<close> is never stored.  The function makes two channels and
  returns the second one (\<^verbatim>\<open>s.errChan\<close>).  The last argument and the second result
  of the model are the allocation counter before and after.
\<close>

definition Supervise :: "'f \<Rightarrow> int \<Rightarrow> logger option \<Rightarrow> nat \<Rightarrow> 'f supervisor \<times> nat" where
  "Supervise f maxR lg nxt =
     (\<lparr>maxRestart = maxR, restartCount = 0, restartChan = nxt, sup_errChan = nxt + 1,
       workerFunc = f, sup_logger = None\<rparr>, nxt + 2)"

section \<open>Starting the instances\<close>

text \<open>A Go runtime panic that nothing recovers, with its message.\<close>

datatype panic = Panic string

text \<open>\<^verbatim>\<open>callWorkerCreate\<close>: panics when the worker has no method \<^verbatim>\<open>Create\<close>, and when
  what \<^verbatim>\<open>Create\<close> returns is not a \<^verbatim>\<open>Worker\<close>.\<close>

definition callWorkerCreate :: "worker \<Rightarrow> panic + worker" where
  "callWorkerCreate w =
     (case create w of
        NoCreate \<Rightarrow> Inl (Panic ''worker need Create method'')
      | CreateNonWorker \<Rightarrow> Inl (Panic ''Create function should return a Worker'')
      | CreateWorker w' \<Rightarrow> Inr w')"

text \<open>
  The body of the inner loop of \<^verbatim>\<open>startWorkers\<close> after the worker \<open>w\<close> of instance
  \<open>n\<close> of stage \<open>i\<close> has been chosen: make a stop channel and append it to
  \<^verbatim>\<open>stopChan\<close>, pick the restart bound (the descriptor's \<^verbatim>\<open>Restart\<close> when that is
  positive, \<^verbatim>\<open>DefaultRestart\<close> otherwise), call \<^verbatim>\<open>Supervise\<close> and store the channel
  it returns in the one field \<^verbatim>\<open>errChan\<close>.
\<close>

definition startInstance :: "globals \<Rightarrow> nat \<Rightarrow> int \<Rightarrow> worker \<Rightarrow> gostage \<Rightarrow> gostage" where
  "startInstance g i n w s =
     (let stop = nextChan s;
          s1 = s\<lparr>nextChan := stop + 1, stopChan := stopChan s @ [stop]\<rparr>;
          restart = (if Restart (linkedWorkers s ! i) > 0
                     then Restart (linkedWorkers s ! i) else DefaultRestart g);
          sv = Supervise \<lparr>cl_w = w, cl_stop = stop, cl_i = i, cl_n = nat n\<rparr>
                 restart (logger s) (nextChan s1)
      in s1\<lparr>errChan := sup_errChan (fst sv), nextChan := snd sv,
             supervised := supervised s1 @ [fst sv]\<rparr>)"

text \<open>
  The inner loop of \<^verbatim>\<open>startWorkers\<close>, \<^verbatim>\<open>for n := 0; n < size; n++\<close>, for the stage
  at position \<open>i\<close>.  Instance 0 runs the descriptor's own worker, every other one a
  worker obtained from \<^verbatim>\<open>callWorkerCreate\<close>.  The loop runs on the caller's
  goroutine, so a panic of \<^verbatim>\<open>callWorkerCreate\<close> ends \<^verbatim>\<open>startWorkers\<close> (\<open>Inl\<close>).
\<close>

function startWorkers_inner :: "globals \<Rightarrow> nat \<Rightarrow> int \<Rightarrow> int \<Rightarrow> gostage \<Rightarrow> panic + gostage" where
  "startWorkers_inner g i sz n s =
     (if n < sz then
        (case (if n \<noteq> 0 then callWorkerCreate (Worker (linkedWorkers s ! i))
               else Inr (Worker (linkedWorkers s ! i))) of
           Inl p \<Rightarrow> Inl p
         | Inr w \<Rightarrow> startWorkers_inner g i sz (n + 1) (startInstance g i n w s))
      else Inr s)"
  by pat_completeness auto
termination
  by (relation "measure (\<lambda>(g, i, sz, n, s). nat (sz - n))") auto

declare startWorkers_inner.simps [simp del]

lemma linkedWorkers_startInstance [simp]:
  "linkedWorkers (startInstance g i n w s) = linkedWorkers s"
  by (simp add: startInstance_def Let_def)

lemma startWorkers_inner_linkedWorkers:
  "startWorkers_inner g i sz n s = Inr s' \<Longrightarrow> linkedWorkers s' = linkedWorkers s"
proof (induction "nat (sz - n)" arbitrary: n s)
  case 0
  then show ?case by (simp add: startWorkers_inner.simps[of g i sz n s])
next
  case (Suc k)
  then have lt: "n < sz" by simp
  from Suc.prems lt obtain w where
    "startWorkers_inner g i sz (n + 1) (startInstance g i n w s) = Inr s'"
    by (subst (asm) startWorkers_inner.simps) (auto split: sum.splits if_splits)
  moreover have "k = nat (sz - (n + 1))" using Suc.hyps(2) by simp
  ultimately have "linkedWorkers s' = linkedWorkers (startInstance g i n w s)"
    by (rule Suc.hyps(1)[rotated])
  then show ?case by simp
qed

text \<open>
  The outer loop of \<^verbatim>\<open>startWorkers\<close> over the positions of the chain: the number of
  instances is the descriptor's \<^verbatim>\<open>Size\<close> when that is positive and \<^verbatim>\<open>DefaultSize\<close>
  otherwise.
\<close>

function startWorkers_loop :: "globals \<Rightarrow> nat \<Rightarrow> gostage \<Rightarrow> panic + gostage" where
  "startWorkers_loop g i s =
     (if i < length (linkedWorkers s) then
        (let sz = (if Size (linkedWorkers s ! i) > 0 then Size (linkedWorkers s ! i)
                   else DefaultSize g)
         in case startWorkers_inner g i sz 0 s of
              Inl p \<Rightarrow> Inl p
            | Inr s' \<Rightarrow> startWorkers_loop g (i + 1) s')
      else Inr s)"
  by pat_completeness auto
termination
  by (relation "measure (\<lambda>(g, i, s). length (linkedWorkers s) - i)")
     (auto dest: startWorkers_inner_linkedWorkers)

declare startWorkers_loop.simps [simp del]

definition startWorkers :: "globals \<Rightarrow> gostage \<Rightarrow> panic + gostage" where
  "startWorkers g s = startWorkers_loop g 0 s"

text \<open>\<^verbatim>\<open>run\<close>: build the chain, wire it, start the instances.  \<open>None\<close>: the builder's
  loop never ends; \<open>Some (Inl p)\<close>: the panic \<open>p\<close> leaves \<^verbatim>\<open>run\<close>.\<close>

definition run :: "globals \<Rightarrow> gostage \<Rightarrow> (panic + gostage) option" where
  "run g s = map_option (\<lambda>s1. startWorkers g (setupChannels s1)) (buildLinkedWorkers s)"

section \<open>Orchestrator: the wait of Run and RunAsync\<close>

text \<open>
  What can wake the \<^verbatim>\<open>select\<close> of \<^verbatim>\<open>Run\<close>: the context is done, an OS signal arrived,
  or some goroutine stands ready to send an error on a channel.  The \<^verbatim>\<open>select\<close>
  receives from exactly two channels, the ones held in \<^verbatim>\<open>s.quitChan\<close> and
  \<^verbatim>\<open>s.errChan\<close> at that moment; a sender on any other channel is not served (\<open>None\<close>).
\<close>

datatype select_event = CtxDone | StopSignal | Offer chan error

datatype cause = Cancelled | Signalled | QuitNotified error | FatalError error

definition Run_select :: "gostage \<Rightarrow> select_event \<Rightarrow> cause option" where
  "Run_select s ev =
     (case ev of
        CtxDone \<Rightarrow> Some Cancelled
      | StopSignal \<Rightarrow> Some Signalled
      | Offer c e \<Rightarrow>
          if c = quitChan s then Some (QuitNotified e)
          else if c = errChan s then Some (FatalError e)
          else None)"

text \<open>\<^verbatim>\<open>RunAsync\<close> has the same \<^verbatim>\<open>select\<close> without the signal case.\<close>

definition RunAsync_select :: "gostage \<Rightarrow> select_event \<Rightarrow> cause option" where
  "RunAsync_select s ev =
     (case ev of
        CtxDone \<Rightarrow> Some Cancelled
      | StopSignal \<Rightarrow> None
      | Offer c e \<Rightarrow>
          if c = quitChan s then Some (QuitNotified e)
          else if c = errChan s then Some (FatalError e)
          else None)"

section \<open>Supervisor: recovery and restart\<close>

text \<open>How one invocation of the supervised function ends.\<close>

datatype work_end = Returns | Panics

text \<open>What the goroutines of one supervisor do, in order.  \<open>WorkStarted k\<close> is the \<open>k\<close>-th
  invocation of \<^verbatim>\<open>s.workerFunc()\<close>, counted from 0.\<close>

datatype sup_event =
    WorkStarted nat
  | WorkReturned
  | Recovered
  | Logged
  | RestartSignalled
  | Emitted error
  | Unrecovered string

datatype work_result = WorkDone | RestartRequested | ProcessDied

text \<open>
  \<^verbatim>\<open>work\<close>: run the function; the deferred function recovers a panic, logs it through
  \<^verbatim>\<open>s.logger\<close> and then sends on \<^verbatim>\<open>s.restartChan\<close>.  Calling the method \<^verbatim>\<open>Error\<close> on a
  nil interface value is itself a runtime panic; it is raised inside the deferred
  function after the \<^verbatim>\<open>recover\<close>, nothing recovers it, and a Go program whose
  goroutine ends in an unrecovered panic exits.  \<open>run_fn f k\<close> is how the \<open>k\<close>-th
  invocation of the function \<open>f\<close> ends.
\<close>

definition work :: "'f supervisor \<Rightarrow> ('f \<Rightarrow> nat \<Rightarrow> work_end) \<Rightarrow> nat \<Rightarrow> sup_event list \<times> work_result" where
  "work s run_fn k =
     (case run_fn (workerFunc s) k of
        Returns \<Rightarrow> ([WorkStarted k, WorkReturned], WorkDone)
      | Panics \<Rightarrow>
          (case sup_logger s of
             None \<Rightarrow>
               ([WorkStarted k, Recovered,
                 Unrecovered ''invalid memory address or nil pointer dereference''], ProcessDied)
           | Some l \<Rightarrow> ([WorkStarted k, Recovered, Logged, RestartSignalled], RestartRequested)))"

text \<open>
  The loop of \<^verbatim>\<open>monitor\<close>, \<^verbatim>\<open>for range s.restartChan\<close>.  \<^verbatim>\<open>restartChan\<close> is unbuffered
  and only the deferred function of the latest \<^verbatim>\<open>work\<close> sends on it, so the loop
  makes a turn exactly when that \<^verbatim>\<open>work\<close> ended in a recovered and logged panic; after a
  normal return, or when the process has died, no turn follows.  \<open>k\<close> is the number of
  invocations made so far, \<open>r\<close> how the latest one ended.
\<close>

function monitor_loop ::
  "'f supervisor \<Rightarrow> ('f \<Rightarrow> nat \<Rightarrow> work_end) \<Rightarrow> nat \<Rightarrow> work_result \<Rightarrow> sup_event list" where
  "monitor_loop s run_fn k r =
     (if r = RestartRequested then
        (if restartCount s + 1 > maxRestart s then [Emitted ErrSupervision]
         else fst (work (s\<lparr>restartCount := restartCount s + 1\<rparr>) run_fn k) @
              monitor_loop (s\<lparr>restartCount := restartCount s + 1\<rparr>) run_fn (k + 1)
                (snd (work (s\<lparr>restartCount := restartCount s + 1\<rparr>) run_fn k)))
      else [])"
  by pat_completeness auto
termination
  by (relation "measure (\<lambda>(s, run_fn, k, r). nat (maxRestart s + 1 - restartCount s))") auto

declare monitor_loop.simps [simp del]

text \<open>\<^verbatim>\<open>monitor\<close>: start the first \<^verbatim>\<open>work\<close>, then loop.\<close>

definition monitor :: "'f supervisor \<Rightarrow> ('f \<Rightarrow> nat \<Rightarrow> work_end) \<Rightarrow> sup_event list" where
  "monitor s run_fn = fst (work s run_fn 0) @ monitor_loop s run_fn 1 (snd (work s run_fn 0))"

text \<open>The number of invocations of the supervised function in a run of a supervisor.\<close>

definition attempts :: "sup_event list \<Rightarrow> nat" where
  "attempts evs = length (filter (\<lambda>e. case e of WorkStarted k \<Rightarrow> True | _ \<Rightarrow> False) evs)"

section \<open>The execution loops of runWorker\<close>

text \<open>The result of one call of \<^verbatim>\<open>HandleEvent\<close>: it returns an output and an error (nil is
  \<open>None\<close>), or it panics.\<close>

datatype handled = Ret val "error option" | Panicked

text \<open>
  Where the goroutine of an instance stands: at the \<^verbatim>\<open>select\<close> at the top of its loop,
  blocked in the send on the outbound channel, blocked in the send on \<^verbatim>\<open>quitChan\<close>,
  blocked in the second \<^verbatim>\<open>select\<close> that only a stop request ends, returned from
  \<^verbatim>\<open>runWorker\<close>, or unwinding a panic.  The last two states belong to the supervisor:
  its monitor is blocked in the send of \<^verbatim>\<open>ErrSupervision\<close>, or has returned.
\<close>

datatype wpc =
    AtSelect
  | SendingOut val
  | SendingQuit
  | AwaitingStop
  | Exited
  | Panicking
  | Exhausted
  | Gone

text \<open>What an instance does, in order.\<close>

datatype action =
    Called val
  | SentOut val
  | SentQuit
  | Slept int
  | LoggedError
  | Closed
  | Acked

text \<open>The stop branch, the same in the three loops: \<^verbatim>\<open>callWorkerClose\<close> calls \<^verbatim>\<open>Close\<close> when
  the worker has it; then the acknowledgement is sent and the channel closed.\<close>

definition stop_branch :: "worker \<Rightarrow> action list" where
  "stop_branch w = (if has_Close w then [Closed] else []) @ [Acked]"

text \<open>
  The \<^verbatim>\<open>default\<close> branch of the root loop, given the counter \<^verbatim>\<open>errNoDataCount\<close> and the
  result of \<^verbatim>\<open>w.HandleEvent(nil)\<close>: the next position, the new counter and what was
  done.  The errors are compared with \<^verbatim>\<open>ErrNoData\<close> first, then with \<^verbatim>\<open>ErrQuit\<close>.
\<close>

fun root_default :: "gostage \<Rightarrow> int \<Rightarrow> handled \<Rightarrow> wpc \<times> int \<times> action list" where
  "root_default s c Panicked = (Panicking, c, [Called NilV])"
| "root_default s c (Ret output None) = (SendingOut output, c, [Called NilV])"
| "root_default s c (Ret output (Some ErrNoData)) =
     (if c + 1 \<ge> noDataCount s then (AtSelect, 0, [Called NilV, Slept (noDataCountSleep s)])
      else (AtSelect, c + 1, [Called NilV]))"
| "root_default s c (Ret output (Some ErrQuit)) = (SendingQuit, c, [Called NilV])"
| "root_default s c (Ret output (Some e)) = (AtSelect, c, [Called NilV, LoggedError])"

text \<open>The receive branch of the terminal loop: the output is dropped, an error logged.\<close>

fun terminal_recv :: "val \<Rightarrow> handled \<Rightarrow> wpc \<times> action list" where
  "terminal_recv v Panicked = (Panicking, [Called v])"
| "terminal_recv v (Ret output None) = (AtSelect, [Called v])"
| "terminal_recv v (Ret output (Some e)) = (AtSelect, [Called v, LoggedError])"

text \<open>The receive branch of the middle loop: an error is logged, and the output is sent
  on the outbound channel in either case.\<close>

fun middle_recv :: "val \<Rightarrow> handled \<Rightarrow> wpc \<times> action list" where
  "middle_recv v Panicked = (Panicking, [Called v])"
| "middle_recv v (Ret output None) = (SendingOut output, [Called v])"
| "middle_recv v (Ret output (Some e)) = (SendingOut output, [Called v, LoggedError])"

text \<open>
  One goroutine's view of its loop.  A turn of the root loop either finds a stop request
  at the \<^verbatim>\<open>select\<close> or takes the \<^verbatim>\<open>default\<close> branch and gets a result from the
  transform; a turn of the other loops takes a stop request or an input, for which the
  transform gives a result.  The loops below give what the goroutine does for a list of
  turns, every send being taken by its peer; \<open>[]\<close> at the end of the list is the loop
  still running.
\<close>

datatype root_turn = StopSeen | Default handled

datatype recv_turn = StopTaken | Input val handled

text \<open>After the quit signal is published the root loop stands in a \<^verbatim>\<open>select\<close> with the
  stop case alone: it takes no further \<^verbatim>\<open>default\<close> turn, whatever the transform would
  return.\<close>

fun quitWait :: "worker \<Rightarrow> root_turn list \<Rightarrow> action list" where
  "quitWait w [] = []"
| "quitWait w (StopSeen # ts) = stop_branch w"
| "quitWait w (Default r # ts) = quitWait w ts"

fun rootLoop :: "gostage \<Rightarrow> worker \<Rightarrow> int \<Rightarrow> root_turn list \<Rightarrow> action list" where
  "rootLoop s w c [] = []"
| "rootLoop s w c (StopSeen # ts) = stop_branch w"
| "rootLoop s w c (Default r # ts) =
     (let p = fst (root_default s c r); c' = fst (snd (root_default s c r));
          a = snd (snd (root_default s c r))
      in case p of
           AtSelect \<Rightarrow> a @ rootLoop s w c' ts
         | SendingOut v \<Rightarrow> a @ SentOut v # rootLoop s w c' ts
         | SendingQuit \<Rightarrow> a @ SentQuit # quitWait w ts
         | _ \<Rightarrow> a)"

fun terminalLoop :: "worker \<Rightarrow> recv_turn list \<Rightarrow> action list" where
  "terminalLoop w [] = []"
| "terminalLoop w (StopTaken # ts) = stop_branch w"
| "terminalLoop w (Input v r # ts) =
     (case fst (terminal_recv v r) of
        AtSelect \<Rightarrow> snd (terminal_recv v r) @ terminalLoop w ts
      | _ \<Rightarrow> snd (terminal_recv v r))"

fun middleLoop :: "worker \<Rightarrow> recv_turn list \<Rightarrow> action list" where
  "middleLoop w [] = []"
| "middleLoop w (StopTaken # ts) = stop_branch w"
| "middleLoop w (Input v r # ts) =
     (case fst (middle_recv v r) of
        SendingOut output \<Rightarrow> snd (middle_recv v r) @ SentOut output # middleLoop w ts
      | _ \<Rightarrow> snd (middle_recv v r))"

text \<open>The values an instance has sent on its outbound channel, in order.\<close>

fun sent_values :: "action list \<Rightarrow> val list" where
  "sent_values [] = []"
| "sent_values (SentOut v # as) = v # sent_values as"
| "sent_values (a # as) = sent_values as"

section \<open>The running system\<close>

text \<open>
  The goroutines of a run, after \<^verbatim>\<open>run\<close> has started them, as a transition system.
  Each supervised instance has the supervisor that \<^verbatim>\<open>startWorkers\<close> made for it (with
  the closure's stage position, instance number, worker and stop channel), the
  position of its goroutine, its counter \<^verbatim>\<open>errNoDataCount\<close>, the number of calls of
  \<^verbatim>\<open>HandleEvent\<close> it has made, and what it has done so far.
\<close>

record inst =
  supv :: "closure supervisor"
  pc :: wpc
  errNoDataCount :: int
  calls :: nat
  history :: "action list"

text \<open>
  The goroutine that called \<^verbatim>\<open>Run\<close>: waiting in the \<^verbatim>\<open>select\<close>; in
  \<^verbatim>\<open>ensureAllWorkerStopped\<close>, blocked in the send \<^verbatim>\<open>stop <- done\<close> on the \<open>j\<close>-th stop
  channel with \<open>confirm\<close> acknowledgements counted (\<open>Stopping j confirm\<close>); returned
  from \<^verbatim>\<open>ensureAllWorkerStopped\<close>; or past the call of the completion callback.
\<close>

datatype opc = Waiting | Stopping nat nat | Stopped | Finished

datatype oevent = Woken cause | StopSent chan | AckReceived chan | CallbackInvoked

record system =
  gs :: gostage
  insts :: "inst list"
  orch :: opc
  olog :: "oevent list"
  died :: bool

text \<open>The transforms of a run: the result of the \<open>k\<close>-th call of \<^verbatim>\<open>HandleEvent\<close> by
  instance \<open>n\<close> of the stage at position \<open>i\<close>, for the given input.\<close>

type_synonym handlers = "nat \<Rightarrow> nat \<Rightarrow> nat \<Rightarrow> val \<Rightarrow> handled"

text \<open>The system when \<^verbatim>\<open>run\<close> has returned: every instance at the top of its loop, the
  caller about to wait.\<close>

definition started :: "gostage \<Rightarrow> system" where
  "started s =
     \<lparr>gs = s,
      insts = map (\<lambda>v. \<lparr>supv = v, pc = AtSelect, errNoDataCount = 0, calls = 0, history = []\<rparr>)
                (supervised s),
      orch = Waiting, olog = [], died = False\<rparr>"

text \<open>\<^verbatim>\<open>ensureAllWorkerStopped\<close> at the head of its loop over \<^verbatim>\<open>s.stopChan\<close>: the next send,
  or the end of the range.\<close>

definition next_stop :: "gostage \<Rightarrow> nat \<Rightarrow> nat \<Rightarrow> opc" where
  "next_stop s j confirm = (if j < length (stopChan s) then Stopping j confirm else Stopped)"

text \<open>A stop request stands ready for an instance when the caller is blocked in the send
  on that instance's stop channel.\<close>

definition offered_stop :: "system \<Rightarrow> inst \<Rightarrow> bool" where
  "offered_stop y x =
     (case orch y of
        Stopping j confirm \<Rightarrow> stopChan (gs y) ! j = cl_stop (workerFunc (supv x))
      | _ \<Rightarrow> False)"

text \<open>
  A panic of the transform unwinds into the deferred function of \<^verbatim>\<open>work\<close>.  With a nil
  logger the process dies there (\<open>None\<close>).  Otherwise the monitor counts the restart and
  either gives up, blocked in the send of \<^verbatim>\<open>ErrSupervision\<close>, or starts \<^verbatim>\<open>work\<close> again:
  a fresh call of \<^verbatim>\<open>runWorker\<close>, with a fresh counter, on the same stop channel.
\<close>

definition recovery :: "inst \<Rightarrow> inst option" where
  "recovery x =
     (case sup_logger (supv x) of
        None \<Rightarrow> None
      | Some l \<Rightarrow>
          (if restartCount (supv x) + 1 > maxRestart (supv x)
           then Some (x\<lparr>supv := (supv x)\<lparr>restartCount := restartCount (supv x) + 1\<rparr>, pc := Exhausted\<rparr>)
           else Some (x\<lparr>supv := (supv x)\<lparr>restartCount := restartCount (supv x) + 1\<rparr>,
                        pc := AtSelect, errNoDataCount := 0\<rparr>)))"

text \<open>Store the state of instance \<open>k\<close> after a call of its transform.\<close>

definition after_call :: "system \<Rightarrow> nat \<Rightarrow> inst \<Rightarrow> system" where
  "after_call y k x =
     (if pc x = Panicking then
        (case recovery x of
           None \<Rightarrow> y\<lparr>insts := (insts y)[k := x], died := True\<rparr>
         | Some x' \<Rightarrow> y\<lparr>insts := (insts y)[k := x']\<rparr>)
      else y\<lparr>insts := (insts y)[k := x]\<rparr>)"

text \<open>
  The steps.  A communication on an unbuffered channel is one step of its two parties.
  \<^item> \<open>ExtCancel\<close>, \<open>ExtSignal\<close>: the \<^verbatim>\<open>select\<close> of \<^verbatim>\<open>Run\<close> takes \<^verbatim>\<open>ctx.Done()\<close>, or the
    signal.
  \<^item> \<open>TakeQuit k\<close>: it receives on \<^verbatim>\<open>quitChan\<close> what instance \<open>k\<close> is sending.
  \<^item> \<open>TakeFatal k\<close>: it receives on the channel held in \<^verbatim>\<open>s.errChan\<close> what the monitor of
    instance \<open>k\<close> is sending.
  \<^item> \<open>HandStop k\<close>: instance \<open>k\<close>, at a \<^verbatim>\<open>select\<close> with the stop case, receives the stop
    request the caller is sending, runs the stop branch and acknowledges; the caller
    counts the acknowledgement and returns when the count equals the number of stop
    channels, or goes on to the next channel.
  \<^item> \<open>Callback\<close>: the caller, back from \<^verbatim>\<open>ensureAllWorkerStopped\<close>, calls \<^verbatim>\<open>fn()\<close>.
  \<^item> \<open>TakeDefault k\<close>: the root instance \<open>k\<close>, with no stop request ready, takes the
    \<^verbatim>\<open>default\<close> branch and calls its transform.
  \<^item> \<open>Pass k k'\<close>: instance \<open>k\<close>, sending on its stage's outbound channel, and instance
    \<open>k'\<close> of a later stage, at its \<^verbatim>\<open>select\<close> with that same channel as inbound
    channel, hand over the value; \<open>k'\<close> calls its transform.
  After the process has died nothing steps.
\<close>

datatype label =
    ExtCancel
  | ExtSignal
  | TakeQuit nat
  | TakeFatal nat
  | HandStop nat
  | Callback
  | TakeDefault nat
  | Pass nat nat

fun step :: "handlers \<Rightarrow> system \<Rightarrow> label \<Rightarrow> system option" where
  "step H y ExtCancel =
     (if \<not> died y \<and> orch y = Waiting
      then Some (y\<lparr>orch := next_stop (gs y) 0 0, olog := olog y @ [Woken Cancelled]\<rparr>)
      else None)"
| "step H y ExtSignal =
     (if \<not> died y \<and> orch y = Waiting
      then Some (y\<lparr>orch := next_stop (gs y) 0 0, olog := olog y @ [Woken Signalled]\<rparr>)
      else None)"
| "step H y (TakeQuit k) =
     (if \<not> died y \<and> orch y = Waiting \<and> k < length (insts y) \<and> pc (insts y ! k) = SendingQuit
      then Some (y\<lparr>orch := next_stop (gs y) 0 0,
                   olog := olog y @ [Woken (QuitNotified ErrQuit)],
                   insts := (insts y)[k := (insts y ! k)
                      \<lparr>pc := AwaitingStop, history := history (insts y ! k) @ [SentQuit]\<rparr>]\<rparr>)
      else None)"
| "step H y (TakeFatal k) =
     (if \<not> died y \<and> orch y = Waiting \<and> k < length (insts y) \<and> pc (insts y ! k) = Exhausted
         \<and> sup_errChan (supv (insts y ! k)) = errChan (gs y)
      then Some (y\<lparr>orch := next_stop (gs y) 0 0,
                   olog := olog y @ [Woken (FatalError ErrSupervision)],
                   insts := (insts y)[k := (insts y ! k)\<lparr>pc := Gone\<rparr>]\<rparr>)
      else None)"
| "step H y (HandStop k) =
     (if \<not> died y \<and> k < length (insts y) \<and> offered_stop y (insts y ! k)
         \<and> (pc (insts y ! k) = AtSelect \<or> pc (insts y ! k) = AwaitingStop)
      then (case orch y of
              Stopping j confirm \<Rightarrow>
                Some (y\<lparr>orch := (if confirm + 1 = length (stopChan (gs y)) then Stopped
                                  else next_stop (gs y) (j + 1) (confirm + 1)),
                        olog := olog y @ [StopSent (stopChan (gs y) ! j),
                                          AckReceived (stopChan (gs y) ! j)],
                        insts := (insts y)[k := (insts y ! k)
                           \<lparr>pc := Exited,
                            history := history (insts y ! k) @
                              stop_branch (cl_w (workerFunc (supv (insts y ! k))))\<rparr>]\<rparr>)
            | _ \<Rightarrow> None)
      else None)"
| "step H y Callback =
     (if \<not> died y \<and> orch y = Stopped
      then Some (y\<lparr>orch := Finished, olog := olog y @ [CallbackInvoked]\<rparr>)
      else None)"
| "step H y (TakeDefault k) =
     (if \<not> died y \<and> k < length (insts y) \<and> cl_i (workerFunc (supv (insts y ! k))) = 0
         \<and> pc (insts y ! k) = AtSelect \<and> \<not> offered_stop y (insts y ! k)
      then (let x = insts y ! k;
                r = H 0 (cl_n (workerFunc (supv x))) (calls x) NilV;
                d = root_default (gs y) (errNoDataCount x) r
            in Some (after_call y k
                 (x\<lparr>pc := fst d, errNoDataCount := fst (snd d), calls := calls x + 1,
                    history := history x @ snd (snd d)\<rparr>)))
      else None)"
| "step H y (Pass k k') =
     (if \<not> died y \<and> k < length (insts y) \<and> k' < length (insts y)
         \<and> cl_i (workerFunc (supv (insts y ! k))) < length (linkedWorkers (gs y))
         \<and> cl_i (workerFunc (supv (insts y ! k'))) < length (linkedWorkers (gs y))
         \<and> cl_i (workerFunc (supv (insts y ! k'))) \<noteq> 0
         \<and> pc (insts y ! k') = AtSelect
         \<and> out_chan (linkedWorkers (gs y) ! cl_i (workerFunc (supv (insts y ! k)))) \<noteq> None
         \<and> out_chan (linkedWorkers (gs y) ! cl_i (workerFunc (supv (insts y ! k))))
             = in_chan (linkedWorkers (gs y) ! cl_i (workerFunc (supv (insts y ! k'))))
      then (case pc (insts y ! k) of
              SendingOut v \<Rightarrow>
                (let x = insts y ! k; x' = insts y ! k';
                     i' = cl_i (workerFunc (supv x'));
                     r = H i' (cl_n (workerFunc (supv x'))) (calls x') v;
                     d = (if i' = length (linkedWorkers (gs y)) - 1 then terminal_recv v r
                          else middle_recv v r);
                     y1 = y\<lparr>insts := (insts y)[k := x\<lparr>pc := AtSelect,
                                                       history := history x @ [SentOut v]\<rparr>]\<rparr>
                 in Some (after_call y1 k'
                      (x'\<lparr>pc := fst d, calls := calls x' + 1, history := history x' @ snd d\<rparr>)))
            | _ \<Rightarrow> None)
      else None)"

text \<open>A schedule: the steps taken one after the other; \<open>None\<close> when one of them cannot be
  taken.\<close>

fun exec :: "handlers \<Rightarrow> system \<Rightarrow> label list \<Rightarrow> system option" where
  "exec H y [] = Some y"
| "exec H y (l # ls) = (case step H y l of None \<Rightarrow> None | Some y' \<Rightarrow> exec H y' ls)"

text \<open>The labels that name instances of the system: no other label can be a step.\<close>

definition labels_of :: "system \<Rightarrow> label list" where
  "labels_of y =
     [ExtCancel, ExtSignal, Callback] @
     concat (map (\<lambda>k. [TakeQuit k, TakeFatal k, HandStop k, TakeDefault k] @
                        map (Pass k) [0..<length (insts y)])
                 [0..<length (insts y)])"

text \<open>No step is possible: every goroutine is blocked for ever, or has returned.\<close>

definition stuck :: "handlers \<Rightarrow> system \<Rightarrow> bool" where
  "stuck H y = list_all (\<lambda>l. step H y l = None) (labels_of y)"

section \<open>Notions used in the statements and proofs\<close>

text \<open>
  The linked stage at position \<open>j\<close> of a chain of \<open>N\<close> stages after the wiring, when the
  wiring starts with \<open>c\<close> channels allocated: the stage \<open>lw\<close> as it was, with the
  channel \<open>c + j - 1\<close> as inbound channel unless it is the root, and the channel
  \<open>c + j\<close> as outbound channel when it is the root or not the last stage.
\<close>

definition wired :: "nat \<Rightarrow> nat \<Rightarrow> linkedWorker \<Rightarrow> nat \<Rightarrow> linkedWorker" where
  "wired c N lw j =
     lw\<lparr>in_chan := (if j = 0 then in_chan lw else Some (c + j - 1)),
        out_chan := (if j = 0 \<or> j + 1 < N then Some (c + j) else out_chan lw)\<rparr>"

text \<open>Of a supervisor started by \<^verbatim>\<open>startWorkers\<close>: the position of its stage and its restart
  bound.\<close>

definition unit_view :: "closure supervisor \<Rightarrow> nat \<times> int" where
  "unit_view sv = (cl_i (workerFunc sv), maxRestart sv)"

text \<open>The orchestrator's events of a complete shutdown over the stop channels \<open>cs\<close>: for
  each channel in order, the stop request and then its acknowledgement.\<close>

definition handshakes :: "chan list \<Rightarrow> oevent list" where
  "handshakes cs = concat (map (\<lambda>c. [StopSent c, AckReceived c]) cs)"

text \<open>
  What the orchestrator has done, by where it stands: nothing while it waits; woken by
  one cause and through the first \<open>j\<close> stop channels, in order, when it is sending the
  stop request \<open>j\<close>; through all of them when \<^verbatim>\<open>ensureAllWorkerStopped\<close> has returned;
  and the callback after that, once.
\<close>

definition shutdown_inv :: "gostage \<Rightarrow> system \<Rightarrow> bool" where
  "shutdown_inv s y =
     (gs y = s \<and>
      (case orch y of
         Waiting \<Rightarrow> olog y = []
       | Stopping j confirm \<Rightarrow>
           confirm = j \<and> j < length (stopChan s) \<and>
           (\<exists>c. olog y = Woken c # handshakes (take j (stopChan s)))
       | Stopped \<Rightarrow> (\<exists>c. olog y = Woken c # handshakes (stopChan s))
       | Finished \<Rightarrow> (\<exists>c. olog y = Woken c # handshakes (stopChan s) @ [CallbackInvoked])))"

section \<open>Example pipelines\<close>

text \<open>The three workers of the README's example: \<^verbatim>\<open>w1\<close> produces, \<^verbatim>\<open>w2\<close> passes on,
  \<^verbatim>\<open>w3\<close> consumes.  None of them has \<^verbatim>\<open>Create\<close> or \<^verbatim>\<open>Close\<close>.\<close>

definition ex_w1 :: worker where "ex_w1 = Obj 1 ''*main.W1'' None NoCreate False"
definition ex_w2 :: worker where "ex_w2 = Obj 2 ''*main.W2'' None NoCreate False"
definition ex_w3 :: worker where "ex_w3 = Obj 3 ''*main.W3'' None NoCreate False"

text \<open>A consumer in the manner of \<^verbatim>\<open>examples.Consumer\<close>: it has \<^verbatim>\<open>Create\<close>, which returns
  a new consumer, and \<^verbatim>\<open>Close\<close>.\<close>

definition ex_consumer :: worker where
  "ex_consumer =
     Obj 4 ''*examples.Consumer'' None
       (CreateWorker (Obj 5 ''*examples.Consumer'' None NoCreate True)) True"

text \<open>A producer with \<^verbatim>\<open>Create\<close>, for a root stage of more than one instance.\<close>

definition ex_producer :: worker where
  "ex_producer =
     Obj 6 ''*examples.Producer'' None
       (CreateWorker (Obj 7 ''*examples.Producer'' None NoCreate False)) False"

text \<open>The README's configuration.\<close>

definition readme_configs :: "config list" where
  "readme_configs =
     [\<lparr>Name = [], Size = 0, Worker = ex_w1, SubscribeTo = None, Restart = 0\<rparr>,
      \<lparr>Name = [], Size = 0, Worker = ex_w2, SubscribeTo = Some ex_w1, Restart = 0\<rparr>,
      \<lparr>Name = [], Size = 0, Worker = ex_w3, SubscribeTo = Some ex_w2, Restart = 0\<rparr>]"






text \<open>Two descriptors without an upstream reference, and a third that subscribes to the
  second of them.\<close>

definition subscribed_root_configs :: "config list" where
  "subscribed_root_configs =
     [\<lparr>Name = [], Size = 0, Worker = ex_w1, SubscribeTo = None, Restart = 0\<rparr>,
      \<lparr>Name = [], Size = 0, Worker = ex_w3, SubscribeTo = None, Restart = 0\<rparr>,
      \<lparr>Name = [], Size = 0, Worker = ex_w2, SubscribeTo = Some ex_w3, Restart = 0\<rparr>]"

text \<open>A worker whose type is a string type, \<^verbatim>\<open>type Tag string\<close> with the method
  \<^verbatim>\<open>HandleEvent\<close>, holding the string \<^verbatim>\<open>hello\<close>; and a descriptor without a name for it.\<close>

definition ex_tag :: worker where
  "ex_tag = Obj 12 ''main.Tag'' (Some ''hello'') NoCreate False"

definition tag_config :: config where
  "tag_config = \<lparr>Name = [], Size = 0, Worker = ex_tag, SubscribeTo = None, Restart = 0\<rparr>"

text \<open>Three stages, each asked to run two instances: the root has a \<^verbatim>\<open>Create\<close> that returns
  a worker, the \<^verbatim>\<open>Create\<close> of the second returns something that is no \<^verbatim>\<open>Worker\<close>, the
  third has no \<^verbatim>\<open>Create\<close>.\<close>

definition ex_odd :: worker where
  "ex_odd = Obj 13 ''*main.Odd'' None CreateNonWorker False"

definition odd_factory_configs :: "config list" where
  "odd_factory_configs =
     [\<lparr>Name = [], Size = 2, Worker = ex_producer, SubscribeTo = None, Restart = 0\<rparr>,
      \<lparr>Name = [], Size = 2, Worker = ex_odd, SubscribeTo = Some ex_producer, Restart = 0\<rparr>,
      \<lparr>Name = [], Size = 2, Worker = ex_w3, SubscribeTo = Some ex_odd, Restart = 0\<rparr>]"

text \<open>A pipeline of one stage.\<close>

definition single_configs :: "config list" where
  "single_configs =
     [\<lparr>Name = [], Size = 0, Worker = ex_w1, SubscribeTo = None, Restart = 0\<rparr>]"

text \<open>A producer with default size and restart bound, and a consumer with two instances
  and restart bound 4 (the values of \<^verbatim>\<open>Test_Pipeline\<close>).\<close>

definition sized_configs :: "config list" where
  "sized_configs =
     [\<lparr>Name = [], Size = 0, Worker = ex_w1, SubscribeTo = None, Restart = 0\<rparr>,
      \<lparr>Name = ''consumer'', Size = 2, Worker = ex_consumer, SubscribeTo = Some ex_w1,
       Restart = 4\<rparr>]"

text \<open>
  \<^verbatim>\<open>Test_simpleTask\<close>: two function workers; the producer returns the numbers 1 to 5 and
  then \<^verbatim>\<open>ErrQuit\<close> on every call, the consumer returns nil.  The run is made with
  \<^verbatim>\<open>WithNoDataCount(1)\<close> and \<^verbatim>\<open>WithNoDataCountSleep(1 * time.Second)\<close>.
\<close>

definition ex_handler :: worker where
  "ex_handler = Obj 8 ''gostage.WorkHandler'' None NoCreate False"

definition ex_handler2 :: worker where
  "ex_handler2 = Obj 9 ''gostage.WorkHandler'' None NoCreate False"

definition simpleTask_configs :: "config list" where
  "simpleTask_configs =
     [\<lparr>Name = [], Size = 0, Worker = ex_handler, SubscribeTo = None, Restart = 0\<rparr>,
      \<lparr>Name = [], Size = 0, Worker = ex_handler2, SubscribeTo = Some ex_handler, Restart = 0\<rparr>]"

definition simpleTask_handlers :: handlers where
  "simpleTask_handlers i n k v =
     (if i = 0 then (if k < 5 then Ret (Data (int k + 1)) None else Ret NilV (Some ErrQuit))
      else Ret NilV None)"

definition simpleTask_system :: "system option" where
  "simpleTask_system =
     (case run package_defaults
             (New package_defaults simpleTask_configs (Some StdLogger)
                [WithNoDataCount 1, WithNoDataCountSleep 1000000000]) of
        Some (Inr s) \<Rightarrow> Some (started s)
      | _ \<Rightarrow> None)"

text \<open>The schedule in which the five numbers are handed over, the producer quits, \<^verbatim>\<open>Run\<close>
  receives the quit and stops the producer, then the consumer, and calls the callback.\<close>

definition simpleTask_schedule :: "label list" where
  "simpleTask_schedule =
     [TakeDefault 0, Pass 0 1, TakeDefault 0, Pass 0 1, TakeDefault 0, Pass 0 1,
      TakeDefault 0, Pass 0 1, TakeDefault 0, Pass 0 1, TakeDefault 0, TakeQuit 0,
      HandStop 0, HandStop 1, Callback]"

text \<open>The schedule in which the producer's last call has returned \<^verbatim>\<open>ErrQuit\<close>, so that it
  is sending on \<^verbatim>\<open>quitChan\<close>, and the \<^verbatim>\<open>select\<close> of \<^verbatim>\<open>Run\<close> takes the cancellation of the
  context.\<close>

definition cancel_schedule :: "label list" where
  "cancel_schedule =
     [TakeDefault 0, Pass 0 1, TakeDefault 0, Pass 0 1, TakeDefault 0, Pass 0 1,
      TakeDefault 0, Pass 0 1, TakeDefault 0, Pass 0 1, TakeDefault 0, ExtCancel]"

text \<open>A root stage of two instances whose transform has nothing to produce and returns
  \<^verbatim>\<open>ErrQuit\<close>, and a consumer.\<close>

definition two_producer_configs :: "config list" where
  "two_producer_configs =
     [\<lparr>Name = [], Size = 2, Worker = ex_producer, SubscribeTo = None, Restart = 0\<rparr>,
      \<lparr>Name = [], Size = 0, Worker = ex_w3, SubscribeTo = Some ex_producer, Restart = 0\<rparr>]"

definition quitting_handlers :: handlers where
  "quitting_handlers i n k v = (if i = 0 then Ret NilV (Some ErrQuit) else Ret NilV None)"

definition two_producer_system :: "system option" where
  "two_producer_system =
     (case run package_defaults (New package_defaults two_producer_configs (Some StdLogger) []) of
        Some (Inr s) \<Rightarrow> Some (started s)
      | _ \<Rightarrow> None)"

text \<open>Both root instances call their transform and quit; \<^verbatim>\<open>Run\<close> receives the quit of the
  first and stops it.  No cancellation and no signal occurs.\<close>

definition two_quit_schedule :: "label list" where
  "two_quit_schedule = [TakeDefault 0, TakeDefault 1, TakeQuit 0, HandStop 0]"

section \<open>Auxiliary facts: the builder\<close>

lemma linkLoop_None [simp]: "linkLoop cfgs None acc = Some acc"
  by (subst linkLoop.simps) simp


lemma linkLoop_shape:
  assumes "linkLoop cfgs cur acc = Some r"
  shows "\<exists>cs. r = acc @ map link cs \<and>
          (case cur of None \<Rightarrow> cs = [] | Some c \<Rightarrow> \<exists>rest. cs = setWorkerName c # rest)"
proof (rule linkLoop.raw_induct
    [where P = "\<lambda>cfgs cur acc r. \<exists>cs. r = acc @ map link cs \<and>
          (case cur of None \<Rightarrow> cs = [] | Some c \<Rightarrow> \<exists>rest. cs = setWorkerName c # rest)",
     OF _ assms])
  fix loop :: "config list \<Rightarrow> config option \<Rightarrow> linkedWorker list \<Rightarrow> linkedWorker list option"
  fix cfgs cur acc r
  assume IH: "\<And>cfgs cur acc r. loop cfgs cur acc = Some r \<Longrightarrow>
      \<exists>cs. r = acc @ map link cs \<and>
          (case cur of None \<Rightarrow> cs = [] | Some c \<Rightarrow> \<exists>rest. cs = setWorkerName c # rest)"
  assume unf: "(case cur of None \<Rightarrow> Some acc
      | Some c \<Rightarrow> loop cfgs (findNext cfgs c) (acc @ [link (setWorkerName c)])) = Some r"
  show "\<exists>cs. r = acc @ map link cs \<and>
          (case cur of None \<Rightarrow> cs = [] | Some c \<Rightarrow> \<exists>rest. cs = setWorkerName c # rest)"
  proof (cases cur)
    case None
    with unf show ?thesis by simp
  next
    case (Some c)
    with unf have "loop cfgs (findNext cfgs c) (acc @ [link (setWorkerName c)]) = Some r"
      by simp
    from IH[OF this] obtain cs where "r = (acc @ [link (setWorkerName c)]) @ map link cs"
      by blast
    then have "r = acc @ map link (setWorkerName c # cs)" by simp
    with Some show ?thesis by (intro exI[of _ "setWorkerName c # cs"]) simp
  qed
qed

text \<open>Every chain the builder makes from the state of \<^verbatim>\<open>New\<close> consists of stages without
  channels.\<close>

lemma buildLinkedWorkers_fresh:
  assumes "linkedWorkers s = []" "buildLinkedWorkers s = Some s'"
  shows "\<exists>cs. linkedWorkers s' = map link cs"
proof -
  from assms(2) obtain lws where
    loop: "linkLoop (configs s) (findRoot (configs s)) (linkedWorkers s) = Some lws"
    and s': "s' = s\<lparr>linkedWorkers := lws\<rparr>"
    by (auto simp: buildLinkedWorkers_def)
  from linkLoop_shape[OF loop] assms(1) obtain cs where "lws = map link cs" by auto
  with s' show ?thesis by auto
qed











text \<open>Examples.  The name given to a descriptor without one is the string itself for the
  worker of a string type, and the type between \<^verbatim>\<open><\<close> and \<^verbatim>\<open> Value>\<close> for the pointer
  worker of the README; a descriptor with a name keeps it.  And a descriptor that
  subscribes to the second of two descriptors without upstream reference is not linked
  either: the chain is the first of the two alone.\<close>

lemma setWorkerName_examples:
  "Name (setWorkerName tag_config) = ''hello'' \<and>
   Name (setWorkerName (readme_configs ! 0)) = ''<*main.W1 Value>'' \<and>
   setWorkerName (sized_configs ! 1) = sized_configs ! 1"
  by code_simp

lemma second_root_never_linked:
  "map_option (map_sum id (\<lambda>s. map Worker (linkedWorkers s)))
     (run package_defaults (New package_defaults subscribed_root_configs (Some StdLogger) []))
     = Some (Inr [ex_w1])"
  by code_simp

section \<open>Auxiliary facts: channel wiring\<close>

lemma in_chan_link [simp]: "in_chan (link c) = None"
  by (simp add: link_def config.extend_def)

lemma out_chan_link [simp]: "out_chan (link c) = None"
  by (simp add: link_def config.extend_def)

lemma setupChannels_loop_done: "length (linkedWorkers s) \<le> i \<Longrightarrow> setupChannels_loop i s = s"
  by (subst setupChannels_loop.simps) simp

lemma setupChannels_loop_root:
  "0 < length (linkedWorkers s) \<Longrightarrow>
   setupChannels_loop 0 s =
     setupChannels_loop 1
       (s\<lparr>nextChan := nextChan s + 1,
          linkedWorkers := (linkedWorkers s)[0 := (linkedWorkers s ! 0)\<lparr>out_chan := Some (nextChan s)\<rparr>]\<rparr>)"
  by (subst setupChannels_loop.simps) (simp add: Let_def)

lemma setupChannels_loop_last:
  "0 < i \<Longrightarrow> Suc i = length (linkedWorkers s) \<Longrightarrow>
   setupChannels_loop i s =
     setupChannels_loop (i + 1)
       (s\<lparr>linkedWorkers := (linkedWorkers s)
             [i := (linkedWorkers s ! i)\<lparr>in_chan := out_chan (linkedWorkers s ! (i - 1))\<rparr>]\<rparr>)"
  by (subst setupChannels_loop.simps) (auto simp add: Let_def)

lemma setupChannels_loop_middle:
  "0 < i \<Longrightarrow> Suc i < length (linkedWorkers s) \<Longrightarrow>
   setupChannels_loop i s =
     setupChannels_loop (i + 1)
       (s\<lparr>nextChan := nextChan s + 1,
          linkedWorkers := (linkedWorkers s)
             [i := (linkedWorkers s ! i)\<lparr>in_chan := out_chan (linkedWorkers s ! (i - 1)),
                                         out_chan := Some (nextChan s)\<rparr>]\<rparr>)"
  by (subst setupChannels_loop.simps) (auto simp add: Let_def)

lemma setupChannels_loop_inv:
  assumes "length (linkedWorkers s) = N" "length lws0 = N" "i \<le> N"
    and "nextChan s = c + (if i = N \<and> 2 \<le> N then N - 1 else i)"
    and "\<And>j. j < N \<Longrightarrow> j < i \<Longrightarrow> linkedWorkers s ! j = wired c N (lws0 ! j) j"
    and "\<And>j. j < N \<Longrightarrow> i \<le> j \<Longrightarrow> linkedWorkers s ! j = lws0 ! j"
  shows "setupChannels_loop i s =
           s\<lparr>nextChan := c + (if 2 \<le> N then N - 1 else N),
             linkedWorkers := map (\<lambda>j. wired c N (lws0 ! j) j) [0..<N]\<rparr>"
  using assms
proof (induction "N - i" arbitrary: i s)
  case 0
  then have iN: "i = N" by simp
  have "linkedWorkers s = map (\<lambda>j. wired c N (lws0 ! j) j) [0..<N]"
    using "0.prems"(1) "0.prems"(5) iN by (intro nth_equalityI) simp_all
  moreover have "nextChan s = c + (if 2 \<le> N then N - 1 else N)"
    using "0.prems"(4) iN by simp
  moreover have "setupChannels_loop i s = s"
    using "0.prems"(1) iN by (simp add: setupChannels_loop_done)
  ultimately show ?case by simp
next
  case (Suc k)
  then have lt: "i < N" by simp
  have nc: "nextChan s = c + i" using Suc.prems(4) lt by simp
  have len: "length (linkedWorkers s) = N" by fact
  have cur: "linkedWorkers s ! i = lws0 ! i" using Suc.prems(6)[of i] lt by simp
  define e where "e = (if i = 0 then (linkedWorkers s ! i)\<lparr>out_chan := Some (nextChan s)\<rparr>
      else if Suc i = N then (linkedWorkers s ! i)\<lparr>in_chan := out_chan (linkedWorkers s ! (i - 1))\<rparr>
      else (linkedWorkers s ! i)\<lparr>in_chan := out_chan (linkedWorkers s ! (i - 1)), out_chan := Some (nextChan s)\<rparr>)"
  define s' where "s' = s\<lparr>nextChan := (if 0 < i \<and> Suc i = N then nextChan s else nextChan s + 1),
                           linkedWorkers := (linkedWorkers s)[i := e]\<rparr>"
  have step: "setupChannels_loop i s = setupChannels_loop (i + 1) s'"
  proof (cases "i = 0")
    case True
    then show ?thesis using lt len by (simp add: setupChannels_loop_root s'_def e_def)
  next
    case False
    then show ?thesis using lt len
      by (cases "Suc i = N") (simp_all add: setupChannels_loop_last setupChannels_loop_middle s'_def e_def)
  qed
  have prev: "0 < i \<Longrightarrow> out_chan (linkedWorkers s ! (i - 1)) = Some (c + (i - 1))"
    using Suc.prems(5)[of "i - 1"] lt by (auto simp: wired_def)
  have e_wired: "e = wired c N (lws0 ! i) i"
    using prev nc cur lt by (cases "i = 0") (auto simp: e_def wired_def)
  have "setupChannels_loop (i + 1) s' =
          s'\<lparr>nextChan := c + (if 2 \<le> N then N - 1 else N),
             linkedWorkers := map (\<lambda>j. wired c N (lws0 ! j) j) [0..<N]\<rparr>"
  proof (rule Suc.hyps(1))
    show "k = N - (i + 1)" using Suc.hyps(2) by simp
    show "length (linkedWorkers s') = N" using len by (simp add: s'_def)
    show "length lws0 = N" by fact
    show "i + 1 \<le> N" using lt by simp
    show "nextChan s' = c + (if i + 1 = N \<and> 2 \<le> N then N - 1 else i + 1)"
      using nc lt by (auto simp: s'_def)
    show "linkedWorkers s' ! j = wired c N (lws0 ! j) j" if "j < N" "j < i + 1" for j
    proof (cases "j = i")
      case True
      then show ?thesis using e_wired len lt by (simp add: s'_def)
    next
      case False
      then have "j < i" using that by simp
      then show ?thesis using Suc.prems(5)[of j] that False by (simp add: s'_def)
    qed
    show "linkedWorkers s' ! j = lws0 ! j" if "j < N" "i + 1 \<le> j" for j
      using Suc.prems(6)[of j] that by (simp add: s'_def)
  qed
  with step show ?case by (simp add: s'_def)
qed

section \<open>Auxiliary facts: starting the instances\<close>

lemma startWorkers_inner_done: "\<not> n < sz \<Longrightarrow> startWorkers_inner g i sz n s = Inr s"
  by (subst startWorkers_inner.simps) simp



lemma unit_view_startInstance:
  "map unit_view (supervised (startInstance g i n w s)) =
     map unit_view (supervised s) @
       [(i, if Restart (linkedWorkers s ! i) > 0 then Restart (linkedWorkers s ! i)
            else DefaultRestart g)]"
  by (simp add: startInstance_def Let_def Supervise_def unit_view_def)

lemma startWorkers_inner_units:
  "startWorkers_inner g i sz n s = Inr s' \<Longrightarrow>
     map unit_view (supervised s') =
     map unit_view (supervised s) @
       replicate (nat (sz - n))
         (i, if Restart (linkedWorkers s ! i) > 0 then Restart (linkedWorkers s ! i)
             else DefaultRestart g)"
proof (induction "nat (sz - n)" arbitrary: n s)
  case 0
  then have "\<not> n < sz" by simp
  with "0.prems" "0.hyps" show ?case by (simp add: startWorkers_inner_done)
next
  case (Suc k)
  then have lt: "n < sz" by simp
  from Suc.prems lt obtain w where
    run: "startWorkers_inner g i sz (n + 1) (startInstance g i n w s) = Inr s'"
    by (subst (asm) startWorkers_inner.simps) (auto split: sum.splits if_splits)
  have k: "k = nat (sz - (n + 1))" using Suc.hyps(2) by simp
  have rep: "nat (sz - n) = Suc (nat (sz - (n + 1)))" using lt by simp
  from Suc.hyps(1)[OF k run] show ?case
    by (simp add: unit_view_startInstance rep)
qed

lemma startWorkers_loop_done: "\<not> i < length (linkedWorkers s) \<Longrightarrow> startWorkers_loop g i s = Inr s"
  by (subst startWorkers_loop.simps) simp

lemma startWorkers_loop_step:
  "i < length (linkedWorkers s) \<Longrightarrow>
   startWorkers_loop g i s =
     (case startWorkers_inner g i
             (if Size (linkedWorkers s ! i) > 0 then Size (linkedWorkers s ! i) else DefaultSize g)
             0 s of
        Inl p \<Rightarrow> Inl p
      | Inr s' \<Rightarrow> startWorkers_loop g (i + 1) s')"
  by (subst startWorkers_loop.simps) (simp add: Let_def)

lemma startWorkers_loop_linkedWorkers:
  "startWorkers_loop g i s = Inr s' \<Longrightarrow> linkedWorkers s' = linkedWorkers s"
proof (induction "length (linkedWorkers s) - i" arbitrary: i s)
  case 0
  then show ?case by (simp add: startWorkers_loop_done)
next
  case (Suc k)
  then have lt: "i < length (linkedWorkers s)" by simp
  from Suc.prems lt obtain s1 where
    inner: "startWorkers_inner g i
             (if Size (linkedWorkers s ! i) > 0 then Size (linkedWorkers s ! i) else DefaultSize g)
             0 s = Inr s1"
    and rest: "startWorkers_loop g (i + 1) s1 = Inr s'"
    by (auto simp: startWorkers_loop_step split: sum.splits)
  have lw: "linkedWorkers s1 = linkedWorkers s"
    using inner by (rule startWorkers_inner_linkedWorkers)
  have "k = length (linkedWorkers s1) - (i + 1)" using Suc.hyps(2) lw by simp
  from Suc.hyps(1)[OF this rest] lw show ?case by simp
qed

lemma startWorkers_loop_units:
  "startWorkers_loop g i s = Inr s' \<Longrightarrow>
     map unit_view (supervised s') =
     map unit_view (supervised s) @
       concat (map (\<lambda>j. replicate
                  (nat (if Size (linkedWorkers s ! j) > 0 then Size (linkedWorkers s ! j)
                        else DefaultSize g))
                  (j, if Restart (linkedWorkers s ! j) > 0 then Restart (linkedWorkers s ! j)
                      else DefaultRestart g))
               [i..<length (linkedWorkers s)])"
proof (induction "length (linkedWorkers s) - i" arbitrary: i s)
  case 0
  then show ?case by (simp add: startWorkers_loop_done)
next
  case (Suc k)
  then have lt: "i < length (linkedWorkers s)" by simp
  from Suc.prems lt obtain s1 where
    inner: "startWorkers_inner g i
             (if Size (linkedWorkers s ! i) > 0 then Size (linkedWorkers s ! i) else DefaultSize g)
             0 s = Inr s1"
    and rest: "startWorkers_loop g (i + 1) s1 = Inr s'"
    by (auto simp: startWorkers_loop_step split: sum.splits)
  have lw: "linkedWorkers s1 = linkedWorkers s"
    using inner by (rule startWorkers_inner_linkedWorkers)
  have k: "k = length (linkedWorkers s1) - (i + 1)" using Suc.hyps(2) lw by simp
  have up: "[i..<length (linkedWorkers s)] = i # [i + 1..<length (linkedWorkers s)]"
    using lt by (simp add: upt_conv_Cons)
  from Suc.hyps(1)[OF k rest, unfolded lw] startWorkers_inner_units[OF inner] show ?case
    by (simp add: up)
qed





text \<open>Example: the second stage is the first to need \<^verbatim>\<open>Create\<close>'s result as a worker, and its
  \<^verbatim>\<open>Create\<close> returns none; the third stage, which has no \<^verbatim>\<open>Create\<close>, is not reached.\<close>

lemma odd_factory_panic:
  "run package_defaults (New package_defaults odd_factory_configs (Some StdLogger) [])
     = Some (Inl (Panic ''Create function should return a Worker''))"
  by code_simp

section \<open>Auxiliary facts: the supervisor\<close>

text \<open>What the supervisor does for a function that panics on every invocation when its
  logger field is set (which \<^verbatim>\<open>Supervise\<close> never does): the function is invoked
  \<open>maxRestart + 1\<close> times, then \<^verbatim>\<open>ErrSupervision\<close> is sent, once and last.\<close>

lemma work_panics_logger:
  "sup_logger s = Some l \<Longrightarrow>
     work s (\<lambda>f k. Panics) k = ([WorkStarted k, Recovered, Logged, RestartSignalled], RestartRequested)"
  by (simp add: work_def)

lemma monitor_loop_nonempty:
  "sup_logger s = Some l \<Longrightarrow> monitor_loop s (\<lambda>f k. Panics) k RestartRequested \<noteq> []"
  by (subst monitor_loop.simps) (simp add: work_panics_logger)

lemma monitor_loop_always_panics:
  "sup_logger s = Some l \<Longrightarrow> restartCount s \<le> maxRestart s \<Longrightarrow>
     attempts (monitor_loop s (\<lambda>f k. Panics) k RestartRequested) = nat (maxRestart s - restartCount s) \<and>
     last (monitor_loop s (\<lambda>f k. Panics) k RestartRequested) = Emitted ErrSupervision \<and>
     Emitted ErrSupervision \<notin> set (butlast (monitor_loop s (\<lambda>f k. Panics) k RestartRequested))"
proof (induction "nat (maxRestart s - restartCount s)" arbitrary: s k)
  case 0
  then have "restartCount s + 1 > maxRestart s" by simp
  then show ?case using 0
    by (subst (1 2 3) monitor_loop.simps) (simp add: attempts_def)
next
  case (Suc n)
  let ?s' = "s\<lparr>restartCount := restartCount s + 1\<rparr>"
  from Suc have le: "\<not> restartCount s + 1 > maxRestart s" by simp
  have lg: "sup_logger ?s' = Some l" using Suc.prems by simp
  have unf: "monitor_loop s (\<lambda>f k. Panics) k RestartRequested =
        [WorkStarted k, Recovered, Logged, RestartSignalled] @
        monitor_loop ?s' (\<lambda>f k. Panics) (k + 1) RestartRequested"
    using le by (subst monitor_loop.simps) (simp add: work_panics_logger[OF lg])
  have n: "n = nat (maxRestart ?s' - restartCount ?s')" using Suc.hyps(2) by simp
  have le': "restartCount ?s' \<le> maxRestart ?s'" using le by simp
  note IH = Suc.hyps(1)[OF n lg le', of "k + 1"]
  have ne: "monitor_loop ?s' (\<lambda>f k. Panics) (k + 1) RestartRequested \<noteq> []"
    using lg by (rule monitor_loop_nonempty)
  show ?case
    unfolding unf using IH ne le Suc.hyps(2)
    by (auto simp: attempts_def butlast_append)
qed

lemma monitor_with_logger_always_panics:
  assumes "sup_logger s = Some l" "restartCount s = 0" "0 \<le> maxRestart s"
  shows "attempts (monitor s (\<lambda>f k. Panics)) = nat (maxRestart s) + 1 \<and>
         last (monitor s (\<lambda>f k. Panics)) = Emitted ErrSupervision \<and>
         Emitted ErrSupervision \<notin> set (butlast (monitor s (\<lambda>f k. Panics)))"
proof -
  have le: "restartCount s \<le> maxRestart s" using assms by simp
  have ne: "monitor_loop s (\<lambda>f k. Panics) 1 RestartRequested \<noteq> []"
    using assms(1) by (rule monitor_loop_nonempty)
  from monitor_loop_always_panics[OF assms(1) le, of 1] ne assms show ?thesis
    by (auto simp: monitor_def work_panics_logger[OF assms(1)] attempts_def butlast_append)
qed

section \<open>Auxiliary facts: the loops\<close>

text \<open>A run of turns of the root loop none of which is a stop request, a quit or a panic,
  and in which the no-data outcomes do not bring the counter to the threshold: the calls,
  the sends and the error logs, no sleep, and the counter has grown by the number of
  no-data outcomes, whatever lies between them.\<close>

lemma rootLoop_counts:
  assumes "Some ErrQuit \<notin> snd ` set rs"
    and "c + int (length (filter (\<lambda>(out, err). err = Some ErrNoData) rs)) < noDataCount s"
  shows "rootLoop s w c (map (\<lambda>(out, err). Default (Ret out err)) rs @ ts) =
           concat (map (\<lambda>(out, err). Called NilV #
                     (case err of None \<Rightarrow> [SentOut out]
                      | Some ErrNoData \<Rightarrow> []
                      | Some e \<Rightarrow> [LoggedError])) rs) @
           rootLoop s w (c + int (length (filter (\<lambda>(out, err). err = Some ErrNoData) rs))) ts"
  using assms
proof (induction rs arbitrary: c)
  case Nil
  then show ?case by simp
next
  case (Cons x rs)
  obtain out err where x: "x = (out, err)" by (cases x) auto
  have nq: "Some ErrQuit \<notin> snd ` set rs" using Cons.prems(1) by simp
  show ?case
  proof (cases err)
    case None
    have "c + int (length (filter (\<lambda>(out, err). err = Some ErrNoData) rs)) < noDataCount s"
      using Cons.prems(2) x None by simp
    from Cons.IH[OF nq this] show ?thesis by (simp add: x None)
  next
    case (Some e)
    show ?thesis
    proof (cases e)
      case ErrNoData
      have below: "(c + 1) + int (length (filter (\<lambda>(out, err). err = Some ErrNoData) rs)) < noDataCount s"
        using Cons.prems(2) x Some ErrNoData by simp
      then have "\<not> c + 1 \<ge> noDataCount s" by simp
      with Cons.IH[OF nq below] show ?thesis by (simp add: x Some ErrNoData algebra_simps)
    next
      case ErrQuit
      with Cons.prems(1) x Some show ?thesis by simp
    next
      case ErrSupervision
      have "c + int (length (filter (\<lambda>(out, err). err = Some ErrNoData) rs)) < noDataCount s"
        using Cons.prems(2) x Some ErrSupervision by simp
      from Cons.IH[OF nq this] show ?thesis by (simp add: x Some ErrSupervision)
    next
      case (ErrOther m)
      have "c + int (length (filter (\<lambda>(out, err). err = Some ErrNoData) rs)) < noDataCount s"
        using Cons.prems(2) x Some ErrOther by simp
      from Cons.IH[OF nq this] show ?thesis by (simp add: x Some ErrOther)
    qed
  qed
qed

text \<open>After a quit outcome the root loop publishes the quit, calls its transform no more,
  and ends only through the stop branch.\<close>

lemma quitWait_no_call: "Called v \<notin> set (quitWait w ts)"
  by (induction w ts rule: quitWait.induct) (simp_all add: stop_branch_def)

lemma quitWait_cases: "quitWait w ts = [] \<or> quitWait w ts = stop_branch w"
  by (induction w ts rule: quitWait.induct) simp_all

lemma rootLoop_quit:
  "rootLoop s w c (Default (Ret output (Some ErrQuit)) # ts) =
     [Called NilV, SentQuit] @ quitWait w ts"
  by simp

section \<open>Auxiliary facts: the running system\<close>

lemma step_label:
  assumes "step H y l = Some y'"
  shows "l \<in> set (labels_of y)"
proof (cases l)
  case (Pass k k')
  with assms have "k < length (insts y) \<and> k' < length (insts y)"
    by (simp split: if_splits)
  then have "Pass k k' \<in> set ([TakeQuit k, TakeFatal k, HandStop k, TakeDefault k] @
                        map (Pass k) [0..<length (insts y)])" "k \<in> set [0..<length (insts y)]"
    by simp_all
  then show ?thesis
    unfolding labels_of_def Pass by (simp del: set_upt) blast
qed (use assms in \<open>auto simp: labels_of_def split: if_splits\<close>)

lemma stuck_no_step: "stuck H y \<Longrightarrow> step H y l = None"
proof (rule ccontr)
  assume st: "stuck H y" and "step H y l \<noteq> None"
  then obtain y' where s: "step H y l = Some y'" by auto
  from step_label[OF s] st show False
    by (auto simp: stuck_def list_all_iff s)
qed

text \<open>
  Safety of the shutdown, for every schedule of every run: the orchestrator's events are
  one wake-up, then the stop requests in the order of \<^verbatim>\<open>s.stopChan\<close>, each followed by
  its acknowledgement before the next is sent, then the callback, at most once and only
  after the acknowledgement of every instance.
\<close>

lemma after_call_frame [simp]:
  "gs (after_call y k x) = gs y" "orch (after_call y k x) = orch y"
  "olog (after_call y k x) = olog y"
  by (simp_all add: after_call_def split: option.splits)

lemma handshakes_snoc:
  "j < length cs \<Longrightarrow> handshakes (take (Suc j) cs) = handshakes (take j cs) @ [StopSent (cs ! j), AckReceived (cs ! j)]"
  by (simp add: handshakes_def take_Suc_conv_app_nth)

lemma shutdown_inv_next_stop:
  "gs y = s \<Longrightarrow> olog y = [] \<Longrightarrow>
   shutdown_inv s (y\<lparr>orch := next_stop s 0 0, olog := olog y @ [Woken c]\<rparr>)"
  by (auto simp: shutdown_inv_def next_stop_def handshakes_def)

lemma shutdown_inv_step:
  assumes "shutdown_inv s y" "step H y l = Some y'"
  shows "shutdown_inv s y'"
proof (cases l)
  case ExtCancel
  with assms show ?thesis
    by (auto simp: shutdown_inv_def next_stop_def handshakes_def split: if_splits)
next
  case ExtSignal
  with assms show ?thesis
    by (auto simp: shutdown_inv_def next_stop_def handshakes_def split: if_splits)
next
  case (TakeQuit k)
  with assms show ?thesis
    by (auto simp: shutdown_inv_def next_stop_def handshakes_def split: if_splits)
next
  case (TakeFatal k)
  with assms show ?thesis
    by (auto simp: shutdown_inv_def next_stop_def handshakes_def split: if_splits)
next
  case (HandStop k)
  with assms obtain j where o: "orch y = Stopping j j" and j: "j < length (stopChan s)"
    and g: "gs y = s"
    by (auto simp: shutdown_inv_def split: if_splits opc.splits)
  from assms(1) o obtain c where lg: "olog y = Woken c # handshakes (take j (stopChan s))"
    by (auto simp: shutdown_inv_def)
  from assms(2) HandStop o g have
    y': "orch y' = (if j + 1 = length (stopChan s) then Stopped else next_stop s (j + 1) (j + 1))"
        "olog y' = olog y @ [StopSent (stopChan s ! j), AckReceived (stopChan s ! j)]"
        "gs y' = s"
    by (auto split: if_splits)
  show ?thesis
  proof (cases "j + 1 = length (stopChan s)")
    case True
    then have "take (Suc j) (stopChan s) = stopChan s" by simp
    with y' lg True handshakes_snoc[OF j] show ?thesis
      by (auto simp: shutdown_inv_def)
  next
    case False
    with j have "Suc j < length (stopChan s)" by simp
    with y' lg False handshakes_snoc[OF j] show ?thesis
      by (auto simp: shutdown_inv_def next_stop_def)
  qed
next
  case Callback
  with assms show ?thesis
    by (auto simp: shutdown_inv_def split: if_splits)
next
  case (TakeDefault k)
  with assms show ?thesis
    by (auto simp: shutdown_inv_def Let_def split: if_splits opc.splits)
next
  case (Pass k k')
  with assms show ?thesis
    by (auto simp: shutdown_inv_def Let_def split: if_splits opc.splits wpc.splits)
qed

lemma shutdown_inv_exec:
  "shutdown_inv s y \<Longrightarrow> exec H y ls = Some y' \<Longrightarrow> shutdown_inv s y'"
  by (induction ls arbitrary: y) (auto split: option.splits dest: shutdown_inv_step)

lemma shutdown_inv_started: "shutdown_inv s (started s)"
  by (simp add: shutdown_inv_def started_def)

lemma callback_after_all_acknowledgements:
  assumes "exec H (started s) ls = Some y" "CallbackInvoked \<in> set (olog y)"
  shows "\<exists>c. olog y = Woken c # handshakes (stopChan s) @ [CallbackInvoked]"
proof -
  have inv: "shutdown_inv s y"
    using shutdown_inv_started assms(1) by (rule shutdown_inv_exec)
  have no: "CallbackInvoked \<notin> set (handshakes cs)" for cs
    by (induction cs) (auto simp: handshakes_def)
  from inv assms(2) no show ?thesis
    by (cases "orch y") (auto simp: shutdown_inv_def)
qed

text \<open>The run of \<^verbatim>\<open>Test_simpleTask\<close> under its expected schedule: the five numbers reach
  the consumer in order, the quit wakes \<^verbatim>\<open>Run\<close>, both instances are stopped in the order
  of their stop channels (3, then 6), and the callback is called last.\<close>

lemma simpleTask_normal_run:
  "map_option (\<lambda>y. (orch y, olog y, map pc (insts y), map history (insts y)))
     (Option.bind simpleTask_system (\<lambda>y. exec simpleTask_handlers y simpleTask_schedule)) =
   Some (Finished,
         [Woken (QuitNotified ErrQuit), StopSent 3, AckReceived 3, StopSent 6, AckReceived 6,
          CallbackInvoked],
         [Exited, Exited],
         [[Called NilV, SentOut (Data 1), Called NilV, SentOut (Data 2), Called NilV,
           SentOut (Data 3), Called NilV, SentOut (Data 4), Called NilV, SentOut (Data 5),
           Called NilV, SentQuit, Acked],
          [Called (Data 1), Called (Data 2), Called (Data 3), Called (Data 4), Called (Data 5),
           Acked]])"
  by code_simp

section \<open>The claims\<close>

subsection \<open>C1: restart after a panic\<close>

text \<open>
  C1 says that a panic of the supervised work is captured, logged and followed by a
  restart, and that work which panics on every invocation is attempted
  \<open>maxRestart + 1\<close> times before \<^verbatim>\<open>ErrSupervision\<close> is emitted.  In the code the
  supervisor that \<^verbatim>\<open>Supervise\<close> builds has a nil logger, whatever logger and bound it is
  given.  The first panic is recovered, the call of \<^verbatim>\<open>s.logger.Error\<close> in the deferred
  function panics on the nil interface, and nothing recovers that: the work is attempted
  once, nothing is logged, no restart signal is sent and \<^verbatim>\<open>ErrSupervision\<close> is never
  emitted.  (With the logger stored the supervisor does what C1 says:
  \<open>monitor_with_logger_always_panics\<close>.)
\<close>

theorem C1_first_panic_kills_the_process:
  "monitor (fst (Supervise f m lg nxt)) (\<lambda>f k. Panics) =
     [WorkStarted 0, Recovered, Unrecovered ''invalid memory address or nil pointer dereference''] \<and>
   attempts (monitor (fst (Supervise f m lg nxt)) (\<lambda>f k. Panics)) = 1 \<and>
   Logged \<notin> set (monitor (fst (Supervise f m lg nxt)) (\<lambda>f k. Panics)) \<and>
   Emitted ErrSupervision \<notin> set (monitor (fst (Supervise f m lg nxt)) (\<lambda>f k. Panics))"
  by (simp add: monitor_def work_def Supervise_def attempts_def monitor_loop.simps)

subsection \<open>C2: one error channel per supervised instance\<close>

text \<open>
  C2 says that the orchestrator holds the error channel of every supervised instance and
  that the wait of \<^verbatim>\<open>Run\<close> receives the supervision exhaustion of any of them.  In
  the code \<^verbatim>\<open>startWorkers\<close> assigns each channel returned by \<^verbatim>\<open>Supervise\<close> to the single
  field \<^verbatim>\<open>errChan\<close>, so only the channel of the instance started last is kept.  For
  the README's pipeline of three stages (three instances) the error channels of the
  three supervisors are the channels 6, 9 and 12, the orchestrator holds channel 12, and
  an \<^verbatim>\<open>ErrSupervision\<close> offered on channel 6 or 9 is not served by the \<^verbatim>\<open>select\<close> of
  \<^verbatim>\<open>Run\<close>; only that of the last instance is.
\<close>

theorem C2_errChan_keeps_only_last_instance:
  "map_option (map_sum id (\<lambda>s. (map sup_errChan (supervised s), errChan s,
        map (\<lambda>sv. Run_select s (Offer (sup_errChan sv) ErrSupervision)) (supervised s))))
     (run package_defaults (New package_defaults readme_configs (Some StdLogger) []))
   = Some (Inr ([6, 9, 12], 12, [None, None, Some (FatalError ErrSupervision)]))"
  by code_simp

subsection \<open>C3: root ambiguity\<close>




subsection \<open>C4: concurrency above 1 without Create\<close>




subsection \<open>C5: channel wiring\<close>

text \<open>
  C5, as stated, fails on the code for a chain of one stage: \<^verbatim>\<open>setupChannels\<close> tests
  \<^verbatim>\<open>i == 0\<close> first, so the only stage is wired as a root.  One channel is made (not
  \<open>N - 1 = 0\<close>), and the stage, which is also the last one, has an outbound channel.
\<close>

theorem C5_counterexample_single_stage:
  "map_option (\<lambda>s. (length (linkedWorkers s), nextChan (setupChannels s) - nextChan s,
                     out_chan (last (linkedWorkers (setupChannels s)))))
     (buildLinkedWorkers (New package_defaults single_configs (Some StdLogger) []))
   = Some (1, 1, Some 2)"
  by code_simp

text \<open>
  C5 as amended: for a freshly built chain of \<open>N \<ge> 2\<close> stages the wiring makes exactly
  \<open>N - 1\<close> channels; for every \<open>i\<close> with \<open>i + 1 < N\<close> the outbound channel of stage \<open>i\<close>
  is the same channel as the inbound channel of stage \<open>i + 1\<close> (the \<open>i\<close>-th channel made
  by the wiring); the root has no inbound and the last stage no outbound channel.  For
  a chain of one stage the wiring makes one channel, the outbound channel of that
  stage, which has no inbound channel.
\<close>

theorem setupChannels_wiring:
  assumes "linkedWorkers s = map link cs"
  shows "length (linkedWorkers (setupChannels s)) = length cs \<and>
    (2 \<le> length cs \<longrightarrow>
       nextChan (setupChannels s) = nextChan s + (length cs - 1) \<and>
       (\<forall>i. Suc i < length cs \<longrightarrow>
          out_chan (linkedWorkers (setupChannels s) ! i) = Some (nextChan s + i) \<and>
          in_chan (linkedWorkers (setupChannels s) ! Suc i) = Some (nextChan s + i)) \<and>
       in_chan (linkedWorkers (setupChannels s) ! 0) = None \<and>
       out_chan (linkedWorkers (setupChannels s) ! (length cs - 1)) = None) \<and>
    (length cs = 1 \<longrightarrow>
       nextChan (setupChannels s) = nextChan s + 1 \<and>
       in_chan (linkedWorkers (setupChannels s) ! 0) = None \<and>
       out_chan (linkedWorkers (setupChannels s) ! 0) = Some (nextChan s))"
proof -
  let ?N = "length cs"
  let ?c = "nextChan s"
  have eq: "setupChannels s =
      s\<lparr>nextChan := ?c + (if 2 \<le> ?N then ?N - 1 else ?N),
        linkedWorkers := map (\<lambda>j. wired ?c ?N (map link cs ! j) j) [0..<?N]\<rparr>"
    unfolding setupChannels_def
    by (rule setupChannels_loop_inv) (simp_all add: assms)
  have len: "length (linkedWorkers (setupChannels s)) = ?N"
    unfolding eq by simp
  have nth: "linkedWorkers (setupChannels s) ! j = wired ?c ?N (link (cs ! j)) j" if "j < ?N" for j
    unfolding eq using that by simp
  have nxt: "nextChan (setupChannels s) = ?c + (if 2 \<le> ?N then ?N - 1 else ?N)"
    unfolding eq by simp
  have long: "out_chan (linkedWorkers (setupChannels s) ! i) = Some (?c + i) \<and>
              in_chan (linkedWorkers (setupChannels s) ! Suc i) = Some (?c + i)"
    if "Suc i < ?N" for i
    using that nth[of i] nth[of "Suc i"] by (simp add: wired_def)
  have root0: "in_chan (linkedWorkers (setupChannels s) ! 0) = None" if "0 < ?N"
    using that nth[of 0] by (simp add: wired_def)
  have root: "2 \<le> ?N \<Longrightarrow> in_chan (linkedWorkers (setupChannels s) ! 0) = None"
       "?N = 1 \<Longrightarrow> in_chan (linkedWorkers (setupChannels s) ! 0) = None"
    using root0 by (cases cs; simp)+
  have last: "out_chan (linkedWorkers (setupChannels s) ! (?N - 1)) = None" if "2 \<le> ?N"
    using that nth[of "?N - 1"] by (simp add: wired_def)
  have single: "out_chan (linkedWorkers (setupChannels s) ! 0) = Some ?c" if "?N = 1"
    using that nth[of 0] by (simp add: wired_def)
  show ?thesis
    using len nxt long root last single by auto
qed

text \<open>C5, witness: the README's chain of three stages gets the channels 2 and 3.\<close>

theorem setupChannels_wiring_witness:
  "linkedWorkers ((New package_defaults readme_configs None [])\<lparr>linkedWorkers := map link readme_configs\<rparr>)
     = map link readme_configs \<and>
   2 \<le> length readme_configs \<and>
   nextChan (setupChannels ((New package_defaults readme_configs None [])\<lparr>linkedWorkers := map link readme_configs\<rparr>))
     = nextChan (New package_defaults readme_configs None []) + 2 \<and>
   map (\<lambda>lw. (in_chan lw, out_chan lw))
     (linkedWorkers (setupChannels ((New package_defaults readme_configs None [])\<lparr>linkedWorkers := map link readme_configs\<rparr>)))
     = [(None, Some 2), (Some 2, Some 3), (Some 3, None)]"
proof -
  let ?s = "(New package_defaults readme_configs None [])\<lparr>linkedWorkers := map link readme_configs\<rparr>"
  have h: "linkedWorkers ?s = map link readme_configs" by simp
  have n: "length readme_configs = 3" by (simp add: readme_configs_def)
  have c: "nextChan ?s = 2" by (simp add: New_def)
  note w = setupChannels_wiring[OF h, unfolded n c]
  have len: "length (linkedWorkers (setupChannels ?s)) = 3" using w by simp
  have i0: "out_chan (linkedWorkers (setupChannels ?s) ! 0) = Some 2"
           "in_chan (linkedWorkers (setupChannels ?s) ! 1) = Some 2"
    using w by auto
  have i1: "out_chan (linkedWorkers (setupChannels ?s) ! 1) = Some 3"
           "in_chan (linkedWorkers (setupChannels ?s) ! 2) = Some 3"
    using w by (auto simp: eval_nat_numeral)
  have ends: "in_chan (linkedWorkers (setupChannels ?s) ! 0) = None"
             "out_chan (linkedWorkers (setupChannels ?s) ! 2) = None"
    using w by auto
  have nc: "nextChan (setupChannels ?s) = 4" using w by simp
  have "map (\<lambda>lw. (in_chan lw, out_chan lw)) (linkedWorkers (setupChannels ?s))
          = [(None, Some 2), (Some 2, Some 3), (Some 3, None)]"
    using len i0 i1 ends
    by (intro nth_equalityI) (auto simp: nth_Cons less_Suc_eq eval_nat_numeral split: nat.splits)
  then show ?thesis using h n nc c by simp
qed

subsection \<open>C6: ordered shutdown and the completion callback\<close>

text \<open>
  C6 says that whatever ended the wait of \<^verbatim>\<open>Run\<close>, shutdown sends \<open>N\<close> stop requests, each
  acknowledged before the next, and the callback is then called exactly once.  In the
  code a stop request is taken only by an instance that stands at a \<^verbatim>\<open>select\<close> with the
  stop case.  In the run of \<^verbatim>\<open>Test_simpleTask\<close> below the producer has returned
  \<^verbatim>\<open>ErrQuit\<close> and is sending on \<^verbatim>\<open>quitChan\<close> when the \<^verbatim>\<open>select\<close> of \<^verbatim>\<open>Run\<close> takes the
  cancellation of the context.  \<^verbatim>\<open>ensureAllWorkerStopped\<close> then blocks in its first send
  (stop channel 0 of 2): nobody receives on \<^verbatim>\<open>quitChan\<close> any more, so the producer never
  reaches its stop case.  No stop request is delivered, no step of any goroutine is
  possible, and the callback has not been and will not be called.
\<close>

theorem C6_shutdown_blocks_after_cancel:
  "case Option.bind simpleTask_system (\<lambda>y. exec simpleTask_handlers y cancel_schedule) of
     None \<Rightarrow> False
   | Some y \<Rightarrow>
       length (stopChan (gs y)) = 2 \<and>
       orch y = Stopping 0 0 \<and>
       olog y = [Woken Cancelled] \<and>
       map pc (insts y) = [SendingQuit, AtSelect] \<and>
       CallbackInvoked \<notin> set (olog y) \<and>
       (\<forall>l. step simpleTask_handlers y l = None)"
proof -
  let ?r = "Option.bind simpleTask_system (\<lambda>y. exec simpleTask_handlers y cancel_schedule)"
  have "?r \<noteq> None" by code_simp
  then obtain y where y: "?r = Some y" by auto
  have "map_option (\<lambda>y. (length (stopChan (gs y)), orch y, olog y, map pc (insts y))) ?r =
          Some (2, Stopping 0 0, [Woken Cancelled], [SendingQuit, AtSelect])"
    by code_simp
  moreover have "map_option (stuck simpleTask_handlers) ?r = Some True"
    by code_simp
  ultimately show ?thesis
    unfolding y by (auto simp: stuck_no_step)
qed

subsection \<open>C7: no-data backoff\<close>

text \<open>
  C7, as stated, fails on the code: the counter \<^verbatim>\<open>errNoDataCount\<close> is changed by no-data
  outcomes and by the sleep alone, so a success between two no-data outcomes does not
  reset it.  With a threshold of 3, the outcomes no-data, success (7), no-data, no-data
  lead to the sleep after two no-data outcomes in a row, fewer than the threshold.
\<close>

theorem C7_counterexample_sleep_after_two_in_a_row:
  "noDataCount (New package_defaults simpleTask_configs None [WithNoDataCount 3]) = 3 \<and>
   rootLoop (New package_defaults simpleTask_configs None [WithNoDataCount 3]) ex_handler 0
     [Default (Ret NilV (Some ErrNoData)), Default (Ret (Data 7) None),
      Default (Ret NilV (Some ErrNoData)), Default (Ret NilV (Some ErrNoData))] =
     [Called NilV, Called NilV, SentOut (Data 7), Called NilV, Called NilV, Slept 1000000000]"
  by code_simp

text \<open>
  C7 as amended: in the root loop the counter starts at 0 and every no-data outcome adds
  one to it; no other outcome changes it.  Take the loop at its start (or right after a
  sleep, where it goes on as from its start) and any run \<open>rs\<close> of outcomes of the
  transform that are returns other than a quit, successes and other errors included.
  If the number of no-data outcomes in \<open>rs\<close>, in a row or not, is smaller than the
  threshold \<^verbatim>\<open>s.noDataCount\<close>, the loop does the calls, the sends of the successes and the
  logging of the other errors, never sleeps, and stands with the counter at that number.
  If that number is one less than the threshold, a further no-data outcome, the
  threshold-th, is followed by a sleep of \<^verbatim>\<open>s.noDataCountSleep\<close>, after which the loop
  goes on with the counter at 0.
\<close>

theorem rootLoop_backoff:
  assumes "Some ErrQuit \<notin> snd ` set rs"
  shows
   "(int (length (filter (\<lambda>(out, err). err = Some ErrNoData) rs)) < noDataCount s \<longrightarrow>
       rootLoop s w 0 (map (\<lambda>(out, err). Default (Ret out err)) rs @ ts) =
         concat (map (\<lambda>(out, err). Called NilV #
                   (case err of None \<Rightarrow> [SentOut out]
                    | Some ErrNoData \<Rightarrow> []
                    | Some e \<Rightarrow> [LoggedError])) rs) @
         rootLoop s w (int (length (filter (\<lambda>(out, err). err = Some ErrNoData) rs))) ts) \<and>
    (int (length (filter (\<lambda>(out, err). err = Some ErrNoData) rs)) + 1 = noDataCount s \<longrightarrow>
       rootLoop s w 0 (map (\<lambda>(out, err). Default (Ret out err)) rs @
                         Default (Ret v (Some ErrNoData)) # ts) =
         concat (map (\<lambda>(out, err). Called NilV #
                   (case err of None \<Rightarrow> [SentOut out]
                    | Some ErrNoData \<Rightarrow> []
                    | Some e \<Rightarrow> [LoggedError])) rs) @
         [Called NilV, Slept (noDataCountSleep s)] @ rootLoop s w 0 ts)"
proof (intro conjI impI)
  assume "int (length (filter (\<lambda>(out, err). err = Some ErrNoData) rs)) < noDataCount s"
  then have "0 + int (length (filter (\<lambda>(out, err). err = Some ErrNoData) rs)) < noDataCount s"
    by simp
  from rootLoop_counts[OF assms this, of w ts]
  show "rootLoop s w 0 (map (\<lambda>(out, err). Default (Ret out err)) rs @ ts) =
         concat (map (\<lambda>(out, err). Called NilV #
                   (case err of None \<Rightarrow> [SentOut out]
                    | Some ErrNoData \<Rightarrow> []
                    | Some e \<Rightarrow> [LoggedError])) rs) @
         rootLoop s w (int (length (filter (\<lambda>(out, err). err = Some ErrNoData) rs))) ts"
    by simp
next
  let ?k = "int (length (filter (\<lambda>(out, err). err = Some ErrNoData) rs))"
  assume th: "?k + 1 = noDataCount s"
  then have "0 + ?k < noDataCount s" by simp
  from rootLoop_counts[OF assms this, of w "Default (Ret v (Some ErrNoData)) # ts"]
  have "rootLoop s w 0 (map (\<lambda>(out, err). Default (Ret out err)) rs @
                         Default (Ret v (Some ErrNoData)) # ts) =
         concat (map (\<lambda>(out, err). Called NilV #
                   (case err of None \<Rightarrow> [SentOut out]
                    | Some ErrNoData \<Rightarrow> []
                    | Some e \<Rightarrow> [LoggedError])) rs) @
         rootLoop s w ?k (Default (Ret v (Some ErrNoData)) # ts)"
    by simp
  moreover have "rootLoop s w ?k (Default (Ret v (Some ErrNoData)) # ts) =
      [Called NilV, Slept (noDataCountSleep s)] @ rootLoop s w 0 ts"
    using th by simp
  ultimately show "rootLoop s w 0 (map (\<lambda>(out, err). Default (Ret out err)) rs @
                         Default (Ret v (Some ErrNoData)) # ts) =
         concat (map (\<lambda>(out, err). Called NilV #
                   (case err of None \<Rightarrow> [SentOut out]
                    | Some ErrNoData \<Rightarrow> []
                    | Some e \<Rightarrow> [LoggedError])) rs) @
         [Called NilV, Slept (noDataCountSleep s)] @ rootLoop s w 0 ts"
    by simp
qed

text \<open>C7, witness: with threshold 3, the outcomes no-data, success (7), no-data cause
  three calls, one send and no sleep, and the loop then takes the stop request; a third
  no-data outcome after them is followed by the sleep of one second.\<close>

theorem rootLoop_backoff_witness:
  "Some ErrQuit \<notin> snd ` set [(NilV, Some ErrNoData), (Data 7, None), (NilV, Some ErrNoData)] \<and>
   int (length (filter (\<lambda>(out, err). err = Some ErrNoData)
          [(NilV, Some ErrNoData), (Data 7, None), (NilV, Some ErrNoData)])) + 1
     = noDataCount (New package_defaults simpleTask_configs None [WithNoDataCount 3]) \<and>
   rootLoop (New package_defaults simpleTask_configs None [WithNoDataCount 3]) ex_handler 0
       (map (\<lambda>(out, err). Default (Ret out err))
          [(NilV, Some ErrNoData), (Data 7, None), (NilV, Some ErrNoData)] @ [StopSeen]) =
     [Called NilV, Called NilV, SentOut (Data 7), Called NilV, Acked] \<and>
   rootLoop (New package_defaults simpleTask_configs None [WithNoDataCount 3]) ex_handler 0
       (map (\<lambda>(out, err). Default (Ret out err))
          [(NilV, Some ErrNoData), (Data 7, None), (NilV, Some ErrNoData)] @
        Default (Ret NilV (Some ErrNoData)) # [StopSeen]) =
     [Called NilV, Called NilV, SentOut (Data 7), Called NilV, Called NilV, Slept 1000000000, Acked]"
proof -
  let ?s = "New package_defaults simpleTask_configs None [WithNoDataCount 3]"
  let ?rs = "[(NilV, Some ErrNoData), (Data 7, None), (NilV, Some ErrNoData)]"
  have T: "noDataCount ?s = 3" by (simp add: New_def WithNoDataCount_def)
  have d: "noDataCountSleep ?s = 1000000000"
    by (simp add: New_def WithNoDataCount_def package_defaults_def)
  have h0: "Some ErrQuit \<notin> snd ` set ?rs" by simp
  have h1: "int (length (filter (\<lambda>(out, err). err = Some ErrNoData) ?rs)) < noDataCount ?s"
    by (simp add: T)
  have h2: "int (length (filter (\<lambda>(out, err). err = Some ErrNoData) ?rs)) + 1 = noDataCount ?s"
    by (simp add: T)
  have stop: "stop_branch ex_handler = [Acked]"
    by (simp add: stop_branch_def ex_handler_def)
  note bk = rootLoop_backoff[OF h0, of ?s ex_handler]
  from bk[of "[StopSeen]"] h1
  have a: "rootLoop ?s ex_handler 0 (map (\<lambda>(out, err). Default (Ret out err)) ?rs @ [StopSeen]) =
      [Called NilV, Called NilV, SentOut (Data 7), Called NilV, Acked]"
    by (simp add: stop)
  from bk[of "[StopSeen]" NilV] h2
  have b: "rootLoop ?s ex_handler 0
       (map (\<lambda>(out, err). Default (Ret out err)) ?rs @ Default (Ret NilV (Some ErrNoData)) # [StopSeen]) =
      [Called NilV, Called NilV, SentOut (Data 7), Called NilV, Called NilV, Slept 1000000000, Acked]"
    by (simp add: stop d)
  from h0 h2 a b show ?thesis by blast
qed

subsection \<open>C8: quit of the root stage\<close>

text \<open>
  C8 says that after a quit outcome of the root stage the run reaches its completion
  callback without cancellation or signal.  In the code every root instance that gets
  \<^verbatim>\<open>ErrQuit\<close> blocks in the send on \<^verbatim>\<open>quitChan\<close>, and the \<^verbatim>\<open>select\<close> of \<^verbatim>\<open>Run\<close>
  receives from that channel once.  With a root stage of two instances that both quit,
  \<^verbatim>\<open>Run\<close> receives the quit of instance 0 and stops it; the send of the stop request to
  instance 1 then blocks for ever, because instance 1 is still blocked in its send on
  \<^verbatim>\<open>quitChan\<close> and never reaches the \<^verbatim>\<open>select\<close> with the stop case.  The schedule has no
  cancellation and no signal; at its end no step of any goroutine is possible and the
  callback has not been called.
\<close>

theorem C8_two_quitting_producers_block:
  "ExtCancel \<notin> set two_quit_schedule \<and> ExtSignal \<notin> set two_quit_schedule \<and>
   (case Option.bind two_producer_system (\<lambda>y. exec quitting_handlers y two_quit_schedule) of
      None \<Rightarrow> False
    | Some y \<Rightarrow>
        orch y = Stopping 1 1 \<and>
        olog y = [Woken (QuitNotified ErrQuit), StopSent 3, AckReceived 3] \<and>
        map pc (insts y) = [Exited, SendingQuit, AtSelect] \<and>
        map history (insts y) = [[Called NilV, SentQuit, Acked], [Called NilV], []] \<and>
        CallbackInvoked \<notin> set (olog y) \<and>
        (\<forall>l. step quitting_handlers y l = None))"
proof -
  let ?r = "Option.bind two_producer_system (\<lambda>y. exec quitting_handlers y two_quit_schedule)"
  have "?r \<noteq> None" by code_simp
  then obtain y where y: "?r = Some y" by auto
  have "map_option (\<lambda>y. (orch y, olog y, map pc (insts y), map history (insts y))) ?r =
          Some (Stopping 1 1, [Woken (QuitNotified ErrQuit), StopSent 3, AckReceived 3],
                [Exited, SendingQuit, AtSelect], [[Called NilV, SentQuit, Acked], [Called NilV], []])"
    by code_simp
  moreover have "map_option (stuck quitting_handlers) ?r = Some True"
    by code_simp
  moreover have "ExtCancel \<notin> set two_quit_schedule \<and> ExtSignal \<notin> set two_quit_schedule"
    by (simp add: two_quit_schedule_def)
  ultimately show ?thesis
    unfolding y by (auto simp: stuck_no_step)
qed

subsection \<open>C9: the middle loop forwards every output\<close>

text \<open>
  C9: in the middle loop, for every received input for which the transform returns, the
  output is sent on the outbound channel right after the call, also when the transform
  returned an error, which is only logged; so the values a middle instance sends are
  the outputs of its transform for all the inputs it received, in order, whatever the
  errors.
\<close>

theorem middleLoop_forwards:
  "middleLoop w (Input v (Ret out err) # ts) =
     Called v # (case err of None \<Rightarrow> [] | Some e \<Rightarrow> [LoggedError]) @ SentOut out # middleLoop w ts \<and>
   sent_values (middleLoop w (map (\<lambda>(v, out, err). Input v (Ret out err)) xs)) =
     map (\<lambda>(v, out, err). out) xs"
proof
  show "middleLoop w (Input v (Ret out err) # ts) =
     Called v # (case err of None \<Rightarrow> [] | Some e \<Rightarrow> [LoggedError]) @ SentOut out # middleLoop w ts"
    by (cases err) simp_all
  show "sent_values (middleLoop w (map (\<lambda>(v, out, err). Input v (Ret out err)) xs)) =
     map (\<lambda>(v, out, err). out) xs"
  proof (induction xs)
    case Nil
    then show ?case by simp
  next
    case (Cons x xs)
    obtain v out err where x: "x = (v, out, err)" by (cases x) auto
    show ?case using Cons.IH by (cases err) (simp_all add: x)
  qed
qed

subsection \<open>C10: per-stage Size and Restart\<close>

text \<open>
  C10: when \<^verbatim>\<open>startWorkers\<close> returns, the supervisors it started are, stage by stage in
  chain order, as many as the descriptor's \<^verbatim>\<open>Size\<close> when that is strictly positive and
  as many as \<^verbatim>\<open>DefaultSize\<close> otherwise, and each has as restart bound the descriptor's
  \<^verbatim>\<open>Restart\<close> when that is strictly positive and \<^verbatim>\<open>DefaultRestart\<close> otherwise (so
  \<^verbatim>\<open>Size = 0\<close> and \<^verbatim>\<open>Restart = 0\<close> mean the defaults).  A supervisor with restart bound
  0 exists only when \<^verbatim>\<open>DefaultRestart\<close> is 0: no value of the field \<^verbatim>\<open>Restart\<close>
  yields the bound 0.
\<close>

theorem startWorkers_size_restart:
  assumes "startWorkers g s = Inr s'" and "supervised s = []"
  shows "map (\<lambda>sv. (cl_i (workerFunc sv), maxRestart sv)) (supervised s') =
           concat (map (\<lambda>i. replicate
                      (nat (if Size (linkedWorkers s ! i) > 0 then Size (linkedWorkers s ! i)
                            else DefaultSize g))
                      (i, if Restart (linkedWorkers s ! i) > 0 then Restart (linkedWorkers s ! i)
                          else DefaultRestart g))
                   [0..<length (linkedWorkers s)]) \<and>
         (\<forall>sv \<in> set (supervised s'). maxRestart sv = 0 \<longrightarrow> DefaultRestart g = 0)"
proof -
  let ?units = "concat (map (\<lambda>i. replicate
                      (nat (if Size (linkedWorkers s ! i) > 0 then Size (linkedWorkers s ! i)
                            else DefaultSize g))
                      (i, if Restart (linkedWorkers s ! i) > 0 then Restart (linkedWorkers s ! i)
                          else DefaultRestart g))
                   [0..<length (linkedWorkers s)])"
  have units: "map (\<lambda>sv. (cl_i (workerFunc sv), maxRestart sv)) (supervised s') = ?units"
    using startWorkers_loop_units[OF assms(1)[unfolded startWorkers_def]] assms(2)
    by (simp add: unit_view_def[abs_def])
  have "DefaultRestart g = 0" if "sv \<in> set (supervised s')" "maxRestart sv = 0" for sv
  proof -
    from that(1) have "(cl_i (workerFunc sv), maxRestart sv) \<in> set ?units"
      unfolding units[symmetric] by (simp add: image_iff) blast
    then obtain i where "maxRestart sv = (if Restart (linkedWorkers s ! i) > 0
        then Restart (linkedWorkers s ! i) else DefaultRestart g)"
      by auto
    with that(2) show ?thesis by (auto split: if_splits)
  qed
  with units show ?thesis by blast
qed

text \<open>C10, witness: with \<^verbatim>\<open>DefaultRestart = 3\<close>, a producer with \<^verbatim>\<open>Size = 0\<close> and
  \<^verbatim>\<open>Restart = 0\<close> runs one instance with bound 3, and a consumer with \<^verbatim>\<open>Size = 2\<close> and
  \<^verbatim>\<open>Restart = 4\<close> runs two instances with bound 4.\<close>

theorem startWorkers_size_restart_witness:
  "startWorkers (package_defaults\<lparr>DefaultRestart := 3\<rparr>)
      ((New package_defaults sized_configs None [])\<lparr>linkedWorkers := map link sized_configs\<rparr>)
     = Inr (projr (startWorkers (package_defaults\<lparr>DefaultRestart := 3\<rparr>)
      ((New package_defaults sized_configs None [])\<lparr>linkedWorkers := map link sized_configs\<rparr>))) \<and>
   supervised ((New package_defaults sized_configs None [])\<lparr>linkedWorkers := map link sized_configs\<rparr>) = [] \<and>
   map (\<lambda>sv. (cl_i (workerFunc sv), maxRestart sv))
     (supervised (projr (startWorkers (package_defaults\<lparr>DefaultRestart := 3\<rparr>)
      ((New package_defaults sized_configs None [])\<lparr>linkedWorkers := map link sized_configs\<rparr>))))
     = [(0, 3), (1, 4), (1, 4)]"
proof -
  let ?g = "package_defaults\<lparr>DefaultRestart := 3\<rparr>"
  let ?s = "(New package_defaults sized_configs None [])\<lparr>linkedWorkers := map link sized_configs\<rparr>"
  let ?s' = "projr (startWorkers ?g ?s)"
  have "\<not> isl (startWorkers ?g ?s)" by code_simp
  then have h1: "startWorkers ?g ?s = Inr ?s'" by simp
  have h2: "supervised ?s = []" by (simp add: New_def)
  from startWorkers_size_restart[OF h1 h2]
  have "map (\<lambda>sv. (cl_i (workerFunc sv), maxRestart sv)) (supervised ?s') =
           concat (map (\<lambda>i. replicate
                      (nat (if Size (linkedWorkers ?s ! i) > 0 then Size (linkedWorkers ?s ! i)
                            else DefaultSize ?g))
                      (i, if Restart (linkedWorkers ?s ! i) > 0 then Restart (linkedWorkers ?s ! i)
                          else DefaultRestart ?g))
                   [0..<length (linkedWorkers ?s)])"
    by blast
  also have "\<dots> = [(0, 3), (1, 4), (1, 4)]"
    by code_simp
  finally show ?thesis using h1 h2 by blast
qed

end
